theory Spec2Isabelle
  imports Main
begin

section \<open>JavaScript values handled by the server\<close>

text \<open>
  The server in \<^verbatim>\<open>src/index.ts\<close> touches JavaScript values in three ways: it decodes a
  request body with \<^verbatim>\<open>JSON.parse\<close>, it converts a decoded \<^verbatim>\<open>method\<close> property to text
  inside a template literal, and it encodes its own error envelopes with
  \<^verbatim>\<open>JSON.stringify\<close>. Text is kept as a list of 8-bit characters (the UTF-8 bytes of the
  text); a number is kept as its lexeme, since the server does no arithmetic on decoded
  numbers.
\<close>

datatype json =
    JNull
  | JBool bool
  | JNum string
  | JStr string
  | JArr "json list"
  | JObj "(string \<times> json) list"

subsection \<open>\<^verbatim>\<open>JSON.parse\<close>\<close>

definition isJsonWhitespace :: "char \<Rightarrow> bool" where
  "isJsonWhitespace c = (c = CHR 0x20 \<or> c = CHR 0x09 \<or> c = CHR 0x0A \<or> c = CHR 0x0D)"

definition skipWs :: "string \<Rightarrow> string" where
  "skipWs s = dropWhile isJsonWhitespace s"

definition hexValue :: "char \<Rightarrow> nat option" where
  "hexValue c =
     (let n = (of_char c :: nat) in
      if 48 \<le> n \<and> n \<le> 57 then Some (n - 48)
      else if 97 \<le> n \<and> n \<le> 102 then Some (n - 87)
      else if 65 \<le> n \<and> n \<le> 70 then Some (n - 55)
      else None)"

text \<open>The UTF-8 bytes of a code unit given by a \<^verbatim>\<open>\uXXXX\<close> escape.\<close>

definition utf8 :: "nat \<Rightarrow> string" where
  "utf8 n =
     (if n < 0x80 then [char_of n]
      else if n < 0x800 then [char_of (0xC0 + n div 64), char_of (0x80 + n mod 64)]
      else [char_of (0xE0 + n div 4096), char_of (0x80 + (n div 64) mod 64),
            char_of (0x80 + n mod 64)])"

definition simpleEscape :: "char \<Rightarrow> char option" where
  "simpleEscape c =
     (if c = CHR 0x22 then Some (CHR 0x22)
      else if c = CHR 0x5C then Some (CHR 0x5C)
      else if c = CHR ''/'' then Some (CHR ''/'')
      else if c = CHR ''b'' then Some (CHR 0x08)
      else if c = CHR ''f'' then Some (CHR 0x0C)
      else if c = CHR ''n'' then Some (CHR 0x0A)
      else if c = CHR ''r'' then Some (CHR 0x0D)
      else if c = CHR ''t'' then Some (CHR 0x09)
      else None)"

text \<open>
  The characters of a string literal after its opening quote: the decoded text and what
  follows the closing quote. \<open>None\<close> is a syntax error.
\<close>

fun parseChars :: "string \<Rightarrow> (string \<times> string) option" where
  "parseChars [] = None"
| "parseChars (c # cs) =
     (if c = CHR 0x22 then Some ([], cs)
      else if c = CHR 0x5C then
        (case cs of
           [] \<Rightarrow> None
         | e # es \<Rightarrow>
             if e = CHR ''u'' then
               (case es of
                  h1 # h2 # h3 # h4 # r \<Rightarrow>
                    (case (hexValue h1, hexValue h2, hexValue h3, hexValue h4) of
                       (Some a, Some b, Some c', Some d) \<Rightarrow>
                         map_option
                           (\<lambda>(t, r'). (utf8 (((a * 16 + b) * 16 + c') * 16 + d) @ t, r'))
                           (parseChars r)
                     | _ \<Rightarrow> None)
                | _ \<Rightarrow> None)
             else
               (case simpleEscape e of
                  None \<Rightarrow> None
                | Some x \<Rightarrow> map_option (\<lambda>(t, r'). (x # t, r')) (parseChars es)))
      else if (of_char c :: nat) < 0x20 then None
      else map_option (\<lambda>(t, r'). (c # t, r')) (parseChars cs))"

definition isDigit :: "char \<Rightarrow> bool" where
  "isDigit c = (48 \<le> (of_char c :: nat) \<and> (of_char c :: nat) \<le> 57)"

definition parseFraction :: "string \<Rightarrow> (string \<times> string) option" where
  "parseFraction s =
     (case s of
        [] \<Rightarrow> Some ([], s)
      | c # cs \<Rightarrow>
          if c = CHR ''.'' then
            (if takeWhile isDigit cs = [] then None
             else Some (c # takeWhile isDigit cs, dropWhile isDigit cs))
          else Some ([], s))"

definition parseExponent :: "string \<Rightarrow> (string \<times> string) option" where
  "parseExponent s =
     (case s of
        [] \<Rightarrow> Some ([], s)
      | c # cs \<Rightarrow>
          if c = CHR ''e'' \<or> c = CHR ''E'' then
            (let (esign, s') =
                   (case cs of
                      [] \<Rightarrow> ([], cs)
                    | d # r \<Rightarrow> if d = CHR ''+'' \<or> d = CHR ''-'' then ([d], r) else ([], cs))
             in if takeWhile isDigit s' = [] then None
                else Some (c # esign @ takeWhile isDigit s', dropWhile isDigit s'))
          else Some ([], s))"

text \<open>A number: its lexeme (sign, integer part without a leading zero, fraction, exponent).\<close>

definition parseNumber :: "string \<Rightarrow> (string \<times> string) option" where
  "parseNumber s =
     (let (sign, s1) =
            (case s of
               [] \<Rightarrow> ([], s)
             | c # cs \<Rightarrow> if c = CHR ''-'' then ([c], cs) else ([], s));
          ds = takeWhile isDigit s1
      in if ds = [] \<or> (hd ds = CHR ''0'' \<and> length ds > 1) then None
         else
           (case parseFraction (dropWhile isDigit s1) of
              None \<Rightarrow> None
            | Some (frac, s2) \<Rightarrow>
                (case parseExponent s2 of
                   None \<Rightarrow> None
                 | Some (ex, s3) \<Rightarrow> Some (sign @ ds @ frac @ ex, s3))))"

definition literal :: "string \<Rightarrow> json \<Rightarrow> string \<Rightarrow> (json \<times> string) option" where
  "literal w v s = (if take (length w) s = w then Some (v, drop (length w) s) else None)"

lemma parseChars_shorter: "parseChars s = Some (t, r) \<Longrightarrow> length r < length s"
proof (induction s arbitrary: t r rule: parseChars.induct)
  case 1
  then show ?case by simp
next
  case (2 c cs)
  then show ?case
    by (fastforce split: if_splits list.splits option.splits prod.splits)
qed

lemma skipWs_length: "length (skipWs s) \<le> length s"
  by (simp add: skipWs_def length_dropWhile_le)

lemma skipWs_Cons_length: "skipWs s = c # cs \<Longrightarrow> length cs < length s"
  using skipWs_length [of s] by simp

text \<open>
  Recursive descent over the grammar of ECMA-404. \<open>parseElements\<close> reads the elements of
  a non-empty array up to its closing bracket, \<open>parseMembers\<close> the members of a non-empty
  object up to its closing brace. The tests \<open>length r < length s\<close> make the recursion
  well-founded; \<open>parse_consumes\<close> below shows that they never fail.
\<close>

function (sequential)
  parseValue :: "string \<Rightarrow> (json \<times> string) option" and
  parseElements :: "string \<Rightarrow> (json list \<times> string) option" and
  parseMembers :: "string \<Rightarrow> ((string \<times> json) list \<times> string) option"
where
  "parseValue s =
     (case skipWs s of
        [] \<Rightarrow> None
      | c # cs \<Rightarrow>
          if c = CHR ''['' then
            (case skipWs cs of
               [] \<Rightarrow> None
             | d # ds \<Rightarrow>
                 if d = CHR '']'' then Some (JArr [], ds)
                 else map_option (\<lambda>(vs, r). (JArr vs, r)) (parseElements (d # ds)))
          else if c = CHR ''{'' then
            (case skipWs cs of
               [] \<Rightarrow> None
             | d # ds \<Rightarrow>
                 if d = CHR ''}'' then Some (JObj [], ds)
                 else map_option (\<lambda>(kvs, r). (JObj kvs, r)) (parseMembers (d # ds)))
          else if c = CHR 0x22 then map_option (\<lambda>(t, r). (JStr t, r)) (parseChars cs)
          else if c = CHR ''t'' then literal ''true'' (JBool True) (c # cs)
          else if c = CHR ''f'' then literal ''false'' (JBool False) (c # cs)
          else if c = CHR ''n'' then literal ''null'' JNull (c # cs)
          else map_option (\<lambda>(t, r). (JNum t, r)) (parseNumber (c # cs)))"
| "parseElements s =
     (case parseValue s of
        None \<Rightarrow> None
      | Some (v, r) \<Rightarrow>
          if length r < length s then
            (case skipWs r of
               [] \<Rightarrow> None
             | c # cs \<Rightarrow>
                 if c = CHR '','' then map_option (\<lambda>(vs, r'). (v # vs, r')) (parseElements cs)
                 else if c = CHR '']'' then Some ([v], cs)
                 else None)
          else None)"
| "parseMembers s =
     (case skipWs s of
        [] \<Rightarrow> None
      | c # cs \<Rightarrow>
          if c \<noteq> CHR 0x22 then None
          else
            (case parseChars cs of
               None \<Rightarrow> None
             | Some (k, r) \<Rightarrow>
                 (case skipWs r of
                    [] \<Rightarrow> None
                  | d # ds \<Rightarrow>
                      if d \<noteq> CHR '':'' then None
                      else
                        (case parseValue ds of
                           None \<Rightarrow> None
                         | Some (v, r2) \<Rightarrow>
                             if length r2 < length ds then
                               (case skipWs r2 of
                                  [] \<Rightarrow> None
                                | e # es \<Rightarrow>
                                    if e = CHR '','' then
                                      map_option (\<lambda>(kvs, r'). ((k, v) # kvs, r'))
                                        (parseMembers es)
                                    else if e = CHR ''}'' then Some ([(k, v)], es)
                                    else None)
                             else None))))"
  by pat_completeness auto

termination
proof (relation "measure (\<lambda>x. case x of
          Inl s \<Rightarrow> 2 * length s
        | Inr (Inl s) \<Rightarrow> 2 * length s + 1
        | Inr (Inr s) \<Rightarrow> 2 * length s + 1)", goal_cases)
  case 1
  then show ?case by simp
next
  case (2 s c cs d ds)
  then show ?case
    using skipWs_Cons_length [of s c cs] skipWs_Cons_length [of cs d ds] by simp
next
  case (3 s c cs d ds)
  then show ?case
    using skipWs_Cons_length [of s c cs] skipWs_Cons_length [of cs d ds] by simp
next
  case (4 s)
  then show ?case by simp
next
  case (5 s x v r c cs)
  then show ?case
    using skipWs_Cons_length [of r c cs] by simp
next
  case (6 s c cs x k r d ds)
  then show ?case
    using skipWs_Cons_length [of s c cs] skipWs_Cons_length [of r d ds]
      parseChars_shorter [of cs k r] by simp
next
  case (7 s c cs x k r d ds y v r2 e es)
  then show ?case
    using skipWs_Cons_length [of s c cs] skipWs_Cons_length [of r d ds]
      parseChars_shorter [of cs k r] skipWs_Cons_length [of r2 e es] by simp
qed

declare parseValue.simps [simp del] parseElements.simps [simp del] parseMembers.simps [simp del]

text \<open>
  \<^verbatim>\<open>JSON.parse(text)\<close>: one value with optional whitespace around it. \<open>None\<close> stands for
  the \<^verbatim>\<open>SyntaxError\<close> that \<^verbatim>\<open>JSON.parse\<close> throws.
\<close>

definition JSON_parse :: "string \<Rightarrow> json option" where
  "JSON_parse s =
     (case parseValue s of
        None \<Rightarrow> None
      | Some (v, r) \<Rightarrow> if skipWs r = [] then Some v else None)"

subsection \<open>Property lookup and conversion to text\<close>

text \<open>
  \<^verbatim>\<open>JSON.parse\<close> keeps the last member of an object for a repeated key, so reading a
  property takes the last binding.
\<close>

definition getProperty :: "(string \<times> json) list \<Rightarrow> string \<Rightarrow> json option" where
  "getProperty kvs k = map_of (rev kvs) k"

text \<open>
  Whether \<^verbatim>\<open>`${v}`\<close> throws a \<^verbatim>\<open>TypeError\<close> for a decoded value \<open>v\<close>. A template literal
  applies ToString. For an object that is OrdinaryToPrimitive with hint string: it calls the
  object's \<^verbatim>\<open>toString\<close> and then its \<^verbatim>\<open>valueOf\<close> if they are callable, and throws when
  neither returns a primitive. A decoded object inherits \<^verbatim>\<open>Object.prototype.toString\<close>
  (which returns text) unless it has an own property \<^verbatim>\<open>toString\<close>; an own property from
  JSON is never callable, and \<^verbatim>\<open>valueOf\<close>, own or inherited, never returns a primitive for
  it. An array is joined: every element other than \<^verbatim>\<open>null\<close> is converted in turn.
\<close>

fun toStringThrows :: "json \<Rightarrow> bool" where
  "toStringThrows (JObj kvs) = (getProperty kvs ''toString'' \<noteq> None)"
| "toStringThrows (JArr vs) = (\<exists>v \<in> set vs. toStringThrows v)"
| "toStringThrows _ = False"

subsection \<open>\<^verbatim>\<open>JSON.stringify\<close>\<close>

definition hexDigit :: "nat \<Rightarrow> char" where
  "hexDigit n = (if n < 10 then char_of (48 + n) else char_of (87 + n))"

definition escapeChar :: "char \<Rightarrow> string" where
  "escapeChar c =
     (if c = CHR 0x22 then [CHR 0x5C, CHR 0x22]
      else if c = CHR 0x5C then [CHR 0x5C, CHR 0x5C]
      else if c = CHR 0x08 then [CHR 0x5C, CHR ''b'']
      else if c = CHR 0x0C then [CHR 0x5C, CHR ''f'']
      else if c = CHR 0x0A then [CHR 0x5C, CHR ''n'']
      else if c = CHR 0x0D then [CHR 0x5C, CHR ''r'']
      else if c = CHR 0x09 then [CHR 0x5C, CHR ''t'']
      else if (of_char c :: nat) < 0x20 then
        [CHR 0x5C, CHR ''u'', CHR ''0'', CHR ''0'',
         hexDigit ((of_char c :: nat) div 16), hexDigit ((of_char c :: nat) mod 16)]
      else [c])"

definition quoteJSONString :: "string \<Rightarrow> string" where
  "quoteJSONString s = CHR 0x22 # concat (map escapeChar s) @ [CHR 0x22]"

fun joinWith :: "string \<Rightarrow> string list \<Rightarrow> string" where
  "joinWith sep [] = []"
| "joinWith sep [x] = x"
| "joinWith sep (x # y # ys) = x @ sep @ joinWith sep (y # ys)"

fun JSON_stringify :: "json \<Rightarrow> string" where
  "JSON_stringify JNull = ''null''"
| "JSON_stringify (JBool b) = (if b then ''true'' else ''false'')"
| "JSON_stringify (JNum n) = n"
| "JSON_stringify (JStr s) = quoteJSONString s"
| "JSON_stringify (JArr vs) = ''['' @ joinWith '','' (map JSON_stringify vs) @ '']''"
| "JSON_stringify (JObj kvs) =
     ''{'' @ joinWith '',''
              (map (\<lambda>kv. quoteJSONString (fst kv) @ '':'' @ JSON_stringify (snd kv)) kvs) @ ''}''"

section \<open>The program's data\<close>

text \<open>
  A tool as \<^verbatim>\<open>index.ts\<close> uses it: \<^verbatim>\<open>tool.name\<close> and \<^verbatim>\<open>tool.description\<close>; the schema and
  the handler are handed to the SDK unread.
\<close>

record tool =
  name :: string
  description :: string

datatype transport = StdioServerTransport | StreamableHTTPServerTransport

text \<open>A value of a request header in \<^verbatim>\<open>req.headers\<close>: \<^verbatim>\<open>string | string[] | undefined\<close>.\<close>

datatype header_value = HString string | HArray "string list" | HUndefined

text \<open>
  What a \<^verbatim>\<open>catch\<close> clause receives: an \<^verbatim>\<open>Error\<close> with its message, or any other thrown
  value.
\<close>

datatype thrown = ErrorObject string | OtherValue

text \<open>
  An incoming request: \<^verbatim>\<open>req.url\<close> and \<^verbatim>\<open>req.method\<close> (both may be undefined; the
  field for the latter is \<open>reqMethod\<close>),
  \<^verbatim>\<open>Object.entries(req.headers)\<close>, and what iterating the request stream gives: the chunks
  of the body, or the error the iteration throws.
\<close>

record request =
  url :: "string option"
  reqMethod :: "string option"
  headers :: "(string \<times> header_value) list"
  body :: "thrown + string list"

text \<open>The response object: \<^verbatim>\<open>res.headersSent\<close> and what has been written to it.\<close>

datatype res_event = WriteHead nat "(string \<times> string) list" | End string

record response =
  headersSent :: bool
  written :: "res_event list"

text \<open>
  A JavaScript number as \<^verbatim>\<open>Number.parseInt\<close> returns it: \<^verbatim>\<open>NaN\<close>, an integer of magnitude
  below \<open>2 ^ 53\<close>, which a double holds exactly, or an integer of magnitude \<open>2 ^ 53\<close> or more, which
  is rounded to a double that is not modelled (\<open>Huge\<close>).
\<close>

datatype number = NaN | Exact int | Huge

text \<open>The calls \<^verbatim>\<open>index.ts\<close> makes, in the order it makes them.\<close>

datatype event =
    ServerTool tool
  | ServerConnect transport
  | CreateServer
  | Listen number string
  | OnError
  | ProcessExit nat
  | ConsoleLog string
  | ConsoleLogMethod json
  | ConsoleError string thrown
  | ExtractToken
  | ReadBody
  | Reply nat json
  | HandleRequest string "json option"

record world =
  res :: response
  trace :: "event list"

text \<open>
  What the handler calls but does not define. \<open>extractRefreshTokenFromHeaders\<close> is imported
  from \<^verbatim>\<open>utils.ts\<close>, which is not among the sources: it is a parameter, so every theorem
  about the handler holds for every such function. \<open>handleRequest\<close> is
  \<^verbatim>\<open>transport.handleRequest(req, res, parsedBody)\<close> of the SDK, given the ambient credential
  it runs under and the response as it stands: it returns the response as it leaves it and
  what it throws, if anything. \<open>now\<close> is the text of \<^verbatim>\<open>new Date().toISOString()\<close>.
  \<open>stackOverflow\<close> tells whether converting a decoded value to text inside the template
  literal of line 114 exhausts the call stack of the runtime (a \<^verbatim>\<open>RangeError\<close>, which
  joining deeply nested arrays throws); where that happens is the runtime's, so it is a
  parameter as well.
\<close>

record env =
  extractRefreshTokenFromHeaders :: "(string \<rightharpoonup> header_value) \<Rightarrow> string option"
  handleRequest :: "string \<Rightarrow> request \<Rightarrow> json option \<Rightarrow> response \<Rightarrow> thrown option \<times> response"
  now :: string
  stackOverflow :: "json \<Rightarrow> bool"

text \<open>
  Modelled from the spec: \<^verbatim>\<open>extractRefreshTokenFromHeaders\<close> of \<^verbatim>\<open>utils.ts\<close>, which is not
  among the sources. The spec (4.4, step 2) has it extract the credential from the
  designated header of the normalized headers, and the handler's own message names that
  header: \<^verbatim>\<open>Token\<close>. It is the instance of the parameter used in the examples.
\<close>

definition tokenHeader :: "(string \<rightharpoonup> header_value) \<Rightarrow> string option" where
  "tokenHeader h = (case h ''token'' of Some (HString t) \<Rightarrow> Some t | _ \<Rightarrow> None)"

text \<open>
  Modelled from the spec: \<^verbatim>\<open>runWithRefreshToken\<close> of \<^verbatim>\<open>utils.ts\<close>, which is not among the
  sources. The spec (4.2) has \<^verbatim>\<open>run(credential, fn)\<close> execute \<^verbatim>\<open>fn\<close> with the credential
  bound as the ambient value, and return what \<^verbatim>\<open>fn\<close> returns or throw what it throws. The
  ambient value is the argument of \<open>fn\<close> here.
\<close>

definition runWithRefreshToken :: "string \<Rightarrow> (string \<Rightarrow> 'a) \<Rightarrow> 'a" where
  "runWithRefreshToken refreshToken fn = fn refreshToken"

section \<open>The HTTP request handler (\<^verbatim>\<open>index.ts\<close>, lines 52 to 149)\<close>

definition emit :: "event \<Rightarrow> world \<Rightarrow> world" where
  "emit e w = w\<lparr>trace := trace w @ [e]\<rparr>"

text \<open>
  \<^verbatim>\<open>res.writeHead(status, { 'Content-Type': 'application/json' }); res.end(JSON.stringify(v))\<close>
\<close>

definition sendJson :: "nat \<Rightarrow> json \<Rightarrow> world \<Rightarrow> world" where
  "sendJson status v w =
     w\<lparr>res := \<lparr>headersSent = True,
                written = written (res w) @
                  [WriteHead status [(''Content-Type'', ''application/json'')],
                   End (JSON_stringify v)]\<rparr>,
       trace := trace w @ [Reply status v]\<rparr>"

text \<open>The three object literals the handler encodes (lines 59, 79 and 137).\<close>

definition notFoundBody :: json where
  "notFoundBody =
     JObj [(''jsonrpc'', JStr ''2.0''),
           (''error'', JObj [(''code'', JNum ''-32000''), (''message'', JStr ''Not Found'')]),
           (''id'', JNull)]"

definition missingTokenBody :: json where
  "missingTokenBody =
     JObj [(''jsonrpc'', JStr ''2.0''),
           (''error'',
            JObj [(''code'', JNum ''-32000''),
                  (''message'',
                   JStr ''Missing refresh token. Include Token header with the refresh token.'')]),
           (''id'', JNull)]"

definition internalErrorBody :: "thrown \<Rightarrow> json" where
  "internalErrorBody error =
     JObj [(''jsonrpc'', JStr ''2.0''),
           (''error'',
            JObj [(''code'', JNum ''-32603''),
                  (''message'',
                   JStr (case error of ErrorObject message \<Rightarrow> message
                         | OtherValue \<Rightarrow> ''Internal error''))]),
           (''id'', JNull)]"

text \<open>\<^verbatim>\<open>req.url || '/'\<close> (line 55).\<close>

definition requestUrl :: "request \<Rightarrow> string" where
  "requestUrl req = (case url req of None \<Rightarrow> ''/'' | Some u \<Rightarrow> if u = [] then ''/'' else u)"

text \<open>
  \<^verbatim>\<open>key.toLowerCase()\<close> on a header name. Header names are ASCII tokens, where lower-casing
  changes the letters A to Z only.
\<close>

definition toLowerCase :: "string \<Rightarrow> string" where
  "toLowerCase s =
     map (\<lambda>c. if 65 \<le> (of_char c :: nat) \<and> (of_char c :: nat) \<le> 90
              then char_of ((of_char c :: nat) + 32) else c) s"

text \<open>The loop of lines 69 to 72: a later entry overwrites an earlier one of the same key.\<close>

definition lowerCaseHeaders :: "(string \<times> header_value) list \<Rightarrow> (string \<rightharpoonup> header_value)" where
  "lowerCaseHeaders hs = fold (\<lambda>(key, v) h. h(toLowerCase key \<mapsto> v)) hs Map.empty"

text \<open>Lines 93 to 96.\<close>

definition tokenPreview :: "string \<Rightarrow> string" where
  "tokenPreview refreshToken =
     (if length refreshToken > 20 then take 20 refreshToken @ ''...'' else refreshToken)"

text \<open>The line logged for each request with a credential (lines 97 to 99).\<close>

definition requestLogLine :: "env \<Rightarrow> request \<Rightarrow> string \<Rightarrow> string" where
  "requestLogLine e req refreshToken =
     ''['' @ now e @ ''] '' @ (case reqMethod req of None \<Rightarrow> ''undefined'' | Some m \<Rightarrow> m) @ '' '' @
     requestUrl req @ '' - Token: '' @ tokenPreview refreshToken"

text \<open>
  The \<^verbatim>\<open>try\<close> of lines 110 to 118 for a non-empty body: the value that ends up in
  \<^verbatim>\<open>parsedBody\<close> and what was logged. Both \<^verbatim>\<open>JSON.parse\<close> and the template literal of the
  log line are inside the \<^verbatim>\<open>try\<close>, so a throw of either one ends in
  \<^verbatim>\<open>parsedBody = body\<close>; the template literal throws a \<^verbatim>\<open>TypeError\<close> (\<open>toStringThrows\<close>) or
  a \<^verbatim>\<open>RangeError\<close> (\<open>stackOverflow\<close>). The log line is written when the decoded value is truthy, has
  type \<^verbatim>\<open>object\<close> and has a property \<^verbatim>\<open>method\<close>: that is an object with that member (an
  array has no such property).
\<close>

definition decodeBody :: "env \<Rightarrow> string \<Rightarrow> json \<times> event list" where
  "decodeBody e b =
     (case JSON_parse b of
        None \<Rightarrow> (JStr b, [])
      | Some parsedBody \<Rightarrow>
          (case parsedBody of
             JObj kvs \<Rightarrow>
               (case getProperty kvs ''method'' of
                  None \<Rightarrow> (parsedBody, [])
                | Some m \<Rightarrow>
                    if toStringThrows m \<or> stackOverflow e m then (JStr b, [])
                    else (parsedBody, [ConsoleLogMethod m]))
           | _ \<Rightarrow> (parsedBody, [])))"

text \<open>
  Lines 102 to 120: the value of \<^verbatim>\<open>parsedBody\<close> (\<open>None\<close> is \<^verbatim>\<open>undefined\<close>), or what reading
  the request stream threw.
\<close>

definition readParsedBody ::
  "env \<Rightarrow> request \<Rightarrow> world \<Rightarrow> (thrown + json option) \<times> world" where
  "readParsedBody e req w =
     (if reqMethod req = Some ''POST'' then
        (case body req of
           Inl error \<Rightarrow> (Inl error, emit ReadBody w)
         | Inr chunks \<Rightarrow>
             (let b = concat chunks in
              if b = [] then (Inr None, emit ReadBody w)
              else (Inr (Some (fst (decodeBody e b))),
                    (emit ReadBody w)\<lparr>trace := trace w @ ReadBody # snd (decodeBody e b)\<rparr>)))
      else (Inr None, w))"

text \<open>Lines 123 to 131: the inner \<^verbatim>\<open>try\<close>, which logs and rethrows.\<close>

definition dispatch ::
  "env \<Rightarrow> request \<Rightarrow> string \<Rightarrow> json option \<Rightarrow> world \<Rightarrow> thrown option \<times> world" where
  "dispatch e req refreshToken parsedBody w =
     (case runWithRefreshToken refreshToken
             (\<lambda>ambient. (ambient, handleRequest e ambient req parsedBody (res w))) of
        (ambient, None, r) \<Rightarrow>
          (None,
           emit (ConsoleLog (''['' @ now e @ ''] Request completed successfully''))
             (emit (HandleRequest ambient parsedBody) (w\<lparr>res := r\<rparr>)))
      | (ambient, Some error, r) \<Rightarrow>
          (Some error,
           emit (ConsoleError (''['' @ now e @ ''] Error in request handler:'') error)
             (emit (HandleRequest ambient parsedBody) (w\<lparr>res := r\<rparr>))))"

text \<open>Lines 53 to 131, the body of the outer \<^verbatim>\<open>try\<close>: what it throws, and the world after.\<close>

definition tryBlock :: "env \<Rightarrow> request \<Rightarrow> world \<Rightarrow> thrown option \<times> world" where
  "tryBlock e req w =
     (if requestUrl req \<noteq> ''/'' \<and> requestUrl req \<noteq> ''/mcp'' then
        (None, sendJson 404 notFoundBody w)
      else
        (case extractRefreshTokenFromHeaders e (lowerCaseHeaders (headers req)) of
           None \<Rightarrow> (None, sendJson 400 missingTokenBody (emit ExtractToken w))
         | Some refreshToken \<Rightarrow>
             if refreshToken = [] then
               (None, sendJson 400 missingTokenBody (emit ExtractToken w))
             else
               (case readParsedBody e req
                       (emit (ConsoleLog (requestLogLine e req refreshToken))
                          (emit ExtractToken w)) of
                  (Inl error, w') \<Rightarrow> (Some error, w')
                | (Inr parsedBody, w') \<Rightarrow> dispatch e req refreshToken parsedBody w')))"

text \<open>Lines 132 to 148, the \<^verbatim>\<open>catch\<close> of the outer \<^verbatim>\<open>try\<close>.\<close>

definition catchBlock :: "thrown \<Rightarrow> world \<Rightarrow> world" where
  "catchBlock error w =
     (let w' = emit (ConsoleError ''Error handling request:'' error) w in
      if \<not> headersSent (res w') then sendJson 500 (internalErrorBody error) w' else w')"

text \<open>A response nothing has been written to, and the world a request starts in.\<close>

definition freshResponse :: response where
  "freshResponse = \<lparr>headersSent = False, written = []\<rparr>"

definition freshWorld :: world where
  "freshWorld = \<lparr>res = freshResponse, trace = []\<rparr>"

text \<open>
  The handler given to \<^verbatim>\<open>http.createServer\<close> (lines 52 to 149): the outer \<^verbatim>\<open>try\<close> and
  its \<^verbatim>\<open>catch\<close>, started on a fresh response.
\<close>

definition requestHandler :: "env \<Rightarrow> request \<Rightarrow> world" where
  "requestHandler e req =
     (case tryBlock e req freshWorld of
        (None, w) \<Rightarrow> w
      | (Some error, w) \<Rightarrow> catchBlock error w)"

section \<open>Start-up (\<^verbatim>\<open>index.ts\<close>, lines 14 to 49 and 151 to 167)\<close>

text \<open>What \<^verbatim>\<open>main\<close> reads of the process: three environment variables and \<^verbatim>\<open>process.argv\<close>.\<close>

record process =
  MCP_TRANSPORT :: "string option"
  PORT :: "string option"
  HOST :: "string option"
  argv :: "string list"

text \<open>
  The calls of the start-up that may throw: \<^verbatim>\<open>server.tool\<close>, given the names registered
  before it, \<^verbatim>\<open>server.connect\<close>, and \<^verbatim>\<open>httpServer.listen(port, host, ...)\<close>, which throws
  synchronously when it refuses the port. All three are parameters.
\<close>

record sdk =
  serverTool :: "string list \<Rightarrow> tool \<Rightarrow> thrown option"
  serverConnect :: "transport \<Rightarrow> thrown option"
  httpListen :: "number \<Rightarrow> string \<Rightarrow> thrown option"

text \<open>
  \<^verbatim>\<open>StrWhiteSpaceChar\<close> of ECMA-262 (white space and line terminators), each as its UTF-8
  bytes: tab, line feed, vertical tab, form feed, carriage return, space, no-break space
  (U+00A0), the space separators U+1680, U+2000 to U+200A, the line and paragraph
  separators U+2028 and U+2029, the space separators U+202F, U+205F and U+3000, and the
  byte order mark U+FEFF.
\<close>

definition strWhiteSpace :: "string list" where
  "strWhiteSpace =
     [[CHR 0x09], [CHR 0x0A], [CHR 0x0B], [CHR 0x0C], [CHR 0x0D], [CHR 0x20],
      [CHR 0xC2, CHR 0xA0], [CHR 0xE1, CHR 0x9A, CHR 0x80],
      [CHR 0xE2, CHR 0x80, CHR 0x80], [CHR 0xE2, CHR 0x80, CHR 0x81],
      [CHR 0xE2, CHR 0x80, CHR 0x82], [CHR 0xE2, CHR 0x80, CHR 0x83],
      [CHR 0xE2, CHR 0x80, CHR 0x84], [CHR 0xE2, CHR 0x80, CHR 0x85],
      [CHR 0xE2, CHR 0x80, CHR 0x86], [CHR 0xE2, CHR 0x80, CHR 0x87],
      [CHR 0xE2, CHR 0x80, CHR 0x88], [CHR 0xE2, CHR 0x80, CHR 0x89],
      [CHR 0xE2, CHR 0x80, CHR 0x8A], [CHR 0xE2, CHR 0x80, CHR 0xA8],
      [CHR 0xE2, CHR 0x80, CHR 0xA9], [CHR 0xE2, CHR 0x80, CHR 0xAF],
      [CHR 0xE2, CHR 0x81, CHR 0x9F], [CHR 0xE3, CHR 0x80, CHR 0x80],
      [CHR 0xEF, CHR 0xBB, CHR 0xBF]]"

text \<open>The white space character a text starts with, if any.\<close>

definition whiteSpacePrefix :: "string \<Rightarrow> string option" where
  "whiteSpacePrefix s = find (\<lambda>w. take (length w) s = w) strWhiteSpace"

lemma whiteSpacePrefix_shorter:
  assumes "whiteSpacePrefix s = Some w"
  shows "length (drop (length w) s) < length s"
proof -
  from assms have w: "w \<in> set strWhiteSpace" "take (length w) s = w"
    by (auto simp: whiteSpacePrefix_def find_Some_iff)
  from w(1) have "w \<noteq> []" by (auto simp: strWhiteSpace_def)
  moreover have "length w \<le> length s"
  proof -
    from w(2) have "length (take (length w) s) = length w" by simp
    then show ?thesis by simp
  qed
  ultimately show ?thesis by (cases w) auto
qed

function trimStart :: "string \<Rightarrow> string" where
  "trimStart s =
     (case whiteSpacePrefix s of None \<Rightarrow> s | Some w \<Rightarrow> trimStart (drop (length w) s))"
  by pat_completeness auto

termination
  by (relation "measure length") (auto dest: whiteSpacePrefix_shorter)

declare trimStart.simps [simp del]

text \<open>
  \<^verbatim>\<open>Number.parseInt(string)\<close> without a radix, after ECMA-262: leading white space is
  dropped, then a sign, then \<^verbatim>\<open>0x\<close> or \<^verbatim>\<open>0X\<close> selects radix 16; the longest prefix of digits
  of the radix is the value, and no digit at all gives \<^verbatim>\<open>NaN\<close>.
\<close>

definition digitValue :: "nat \<Rightarrow> char \<Rightarrow> nat option" where
  "digitValue radix c =
     (case hexValue c of None \<Rightarrow> None | Some d \<Rightarrow> if d < radix then Some d else None)"

definition parseInt :: "string \<Rightarrow> number" where
  "parseInt input =
     (let s = trimStart input;
          negative = (s \<noteq> [] \<and> hd s = CHR ''-'');
          s1 = (if s \<noteq> [] \<and> (hd s = CHR ''+'' \<or> hd s = CHR ''-'') then tl s else s);
          hex = (take 2 s1 = ''0x'' \<or> take 2 s1 = ''0X'');
          radix = (if hex then 16 else 10);
          s2 = (if hex then drop 2 s1 else s1);
          z = takeWhile (\<lambda>c. digitValue radix c \<noteq> None) s2;
          mathInt =
            foldl (\<lambda>a c. case digitValue radix c of None \<Rightarrow> a | Some d \<Rightarrow> a * int radix + int d)
              (0 :: int) z
      in if z = [] then NaN
         else if mathInt < 9007199254740992 then Exact (if negative then - mathInt else mathInt)
         else Huge)"

text \<open>Line 28.\<close>

definition useStdio :: "process \<Rightarrow> bool" where
  "useStdio p = (MCP_TRANSPORT p = Some ''stdio'' \<or> ''--stdio'' \<in> set (argv p))"

text \<open>Lines 39 and 40: an unset and an empty variable are both falsy.\<close>

definition port :: "process \<Rightarrow> number" where
  "port p =
     (case PORT p of None \<Rightarrow> Exact 8888 | Some v \<Rightarrow> if v = [] then Exact 8888 else parseInt v)"

definition host :: "process \<Rightarrow> string" where
  "host p = (case HOST p of None \<Rightarrow> ''0.0.0.0'' | Some h \<Rightarrow> if h = [] then ''0.0.0.0'' else h)"

text \<open>
  \<^verbatim>\<open>main()\<close> with the \<^verbatim>\<open>catch\<close> of line 164: the calls it makes. A rejected
  \<^verbatim>\<open>server.connect\<close> ends in \<^verbatim>\<open>process.exit(1)\<close>. In HTTP mode the calls that follow are
  \<^verbatim>\<open>http.createServer(handler)\<close> and \<^verbatim>\<open>httpServer.listen(port, host, ...)\<close>. When
  \<^verbatim>\<open>listen\<close> throws, \<^verbatim>\<open>main\<close> is rejected at line 151 and ends in the same \<^verbatim>\<open>catch\<close>,
  before line 158; otherwise \<^verbatim>\<open>httpServer.on('error', ...)\<close> follows. What the listener
  does from then on is the runtime's, and each request it accepts runs \<open>requestHandler\<close>.
\<close>

definition main :: "sdk \<Rightarrow> process \<Rightarrow> event list" where
  "main k p =
     (if useStdio p then
        (case serverConnect k StdioServerTransport of
           None \<Rightarrow> [ServerConnect StdioServerTransport]
         | Some error \<Rightarrow>
             [ServerConnect StdioServerTransport,
              ConsoleError ''Fatal error in main():'' error, ProcessExit 1])
      else
        (case serverConnect k StreamableHTTPServerTransport of
           None \<Rightarrow>
             (case httpListen k (port p) (host p) of
                None \<Rightarrow>
                  [ServerConnect StreamableHTTPServerTransport, CreateServer,
                   Listen (port p) (host p), OnError]
              | Some error \<Rightarrow>
                  [ServerConnect StreamableHTTPServerTransport, CreateServer,
                   Listen (port p) (host p),
                   ConsoleError ''Fatal error in main():'' error, ProcessExit 1])
         | Some error \<Rightarrow>
             [ServerConnect StreamableHTTPServerTransport,
              ConsoleError ''Fatal error in main():'' error, ProcessExit 1]))"

text \<open>
  The \<^verbatim>\<open>forEach\<close> of lines 20 to 22: one \<^verbatim>\<open>server.tool\<close> call per tool, in order, until one
  throws.
\<close>

fun registerTools :: "sdk \<Rightarrow> string list \<Rightarrow> tool list \<Rightarrow> event list \<times> thrown option" where
  "registerTools k registered [] = ([], None)"
| "registerTools k registered (t # ts) =
     (case serverTool k registered t of
        Some error \<Rightarrow> ([ServerTool t], Some error)
      | None \<Rightarrow>
          (ServerTool t # fst (registerTools k (registered @ [name t]) ts),
           snd (registerTools k (registered @ [name t]) ts)))"

fun decimal :: "nat \<Rightarrow> string" where
  "decimal n = (if n < 10 then [char_of (48 + n)] else decimal (n div 10) @ [char_of (48 + n mod 10)])"

declare decimal.simps [simp del]

text \<open>
  The module from its first statement: the registrations, the log line of line 24, then
  \<^verbatim>\<open>main()\<close>. An exception thrown by a registration is uncaught and ends the module before
  \<^verbatim>\<open>main\<close> is called.
\<close>

definition program :: "sdk \<Rightarrow> process \<Rightarrow> tool list \<Rightarrow> tool list \<Rightarrow> tool list \<Rightarrow> event list" where
  "program k p readTools playTools albumTools =
     (let allTools = readTools @ playTools @ albumTools in
      case registerTools k [] allTools of
        (es, Some error) \<Rightarrow> es
      | (es, None) \<Rightarrow>
          es @
          [ConsoleLog (''Registered '' @ decimal (length allTools) @ '' tools: '' @
                       joinWith '', '' (map name allTools))] @
          main k p)"

section \<open>Notions of the specification and example environments\<close>

text \<open>
  The path of a request target in origin form (\<^verbatim>\<open>absolute-path [ "?" query ]\<close>): what comes
  before the first question mark. \<^verbatim>\<open>req.url\<close> holds the whole request target.
\<close>

definition urlPath :: "string \<Rightarrow> string" where
  "urlPath target = takeWhile (\<lambda>c. c \<noteq> CHR ''?'') target"

text \<open>A property of a decoded value, when it is an object.\<close>

definition property :: "json \<Rightarrow> string \<Rightarrow> json option" where
  "property v k = (case v of JObj kvs \<Rightarrow> getProperty kvs k | _ \<Rightarrow> None)"

text \<open>How deeply arrays are nested in a value; the examples take 1000 levels as the stack's limit.\<close>

fun arrayDepth :: "json \<Rightarrow> nat" where
  "arrayDepth (JArr vs) = Suc (fold max (map arrayDepth vs) 0)"
| "arrayDepth _ = 0"

text \<open>
  Three transports for the examples: one that answers, one that throws before it has sent
  anything, and one that throws after it has started the response.
\<close>

definition answering ::
  "string \<Rightarrow> request \<Rightarrow> json option \<Rightarrow> response \<Rightarrow> thrown option \<times> response" where
  "answering ambient req parsedBody r =
     (None, \<lparr>headersSent = True,
             written = written r @ [WriteHead 200 [(''Content-Type'', ''text/event-stream'')]]\<rparr>)"

definition failingEarly ::
  "string \<Rightarrow> request \<Rightarrow> json option \<Rightarrow> response \<Rightarrow> thrown option \<times> response" where
  "failingEarly ambient req parsedBody r = (Some (ErrorObject ''boom''), r)"

definition failingLate ::
  "string \<Rightarrow> request \<Rightarrow> json option \<Rightarrow> response \<Rightarrow> thrown option \<times> response" where
  "failingLate ambient req parsedBody r =
     (Some (ErrorObject ''boom''),
      \<lparr>headersSent = True,
       written = written r @ [WriteHead 200 [(''Content-Type'', ''text/event-stream'')]]\<rparr>)"

definition exampleEnv ::
  "(string \<Rightarrow> request \<Rightarrow> json option \<Rightarrow> response \<Rightarrow> thrown option \<times> response) \<Rightarrow> env" where
  "exampleEnv transport =
     \<lparr>extractRefreshTokenFromHeaders = tokenHeader, handleRequest = transport,
      now = ''2025-01-01T00:00:00.000Z'', stackOverflow = (\<lambda>v. 1000 < arrayDepth v)\<rparr>"

text \<open>
  The port check of Node's \<^verbatim>\<open>listen\<close>: it throws \<^verbatim>\<open>ERR_SOCKET_BAD_PORT\<close> unless the port
  is an integer from 0 to 65535. \<open>nodeListen\<close> is the instance of \<open>httpListen\<close> used in the
  examples; the thrown error carries its code for a message.
\<close>

definition validPort :: "number \<Rightarrow> bool" where
  "validPort n = (case n of Exact i \<Rightarrow> 0 \<le> i \<and> i \<le> 65535 | _ \<Rightarrow> False)"

definition nodeListen :: "number \<Rightarrow> string \<Rightarrow> thrown option" where
  "nodeListen n h = (if validPort n then None else Some (ErrorObject ''ERR_SOCKET_BAD_PORT''))"

definition exampleSdk :: sdk where
  "exampleSdk =
     \<lparr>serverTool = (\<lambda>registered t. None), serverConnect = (\<lambda>t. None),
      httpListen = nodeListen\<rparr>"

text \<open>The two kinds of call whose order matters at start-up.\<close>

fun isServerTool :: "event \<Rightarrow> bool" where
  "isServerTool (ServerTool t) = True"
| "isServerTool _ = False"

fun isServerConnect :: "event \<Rightarrow> bool" where
  "isServerConnect (ServerConnect t) = True"
| "isServerConnect _ = False"

text \<open>What follows the registrations when none of them throws.\<close>

definition afterRegistration :: "sdk \<Rightarrow> process \<Rightarrow> tool list \<Rightarrow> event list" where
  "afterRegistration k p allTools =
     ConsoleLog (''Registered '' @ decimal (length allTools) @ '' tools: '' @
                 joinWith '', '' (map name allTools)) # main k p"

text \<open>Example requests, processes and tools.\<close>

definition getRequest :: request where
  "getRequest =
     \<lparr>url = Some ''/'', reqMethod = Some ''GET'',
      headers = [(''token'', HString ''abc123'')], body = Inr []\<rparr>"

definition emptyPost :: request where
  "emptyPost =
     \<lparr>url = Some ''/mcp'', reqMethod = Some ''POST'',
      headers = [(''Token'', HString ''abc123'')], body = Inr [[]]\<rparr>"

definition idSevenRequest :: request where
  \<open>idSevenRequest =
     \<lparr>url = Some ''/mcp'', reqMethod = Some ''POST'',
      headers = [(''Token'', HString ''abc123'')],
      body = Inr [''{"jsonrpc":"2.0","id":7,'', ''"method":"tools/call"}'']\<rparr>\<close>

definition toStringRequest :: request where
  \<open>toStringRequest =
     \<lparr>url = Some ''/mcp'', reqMethod = Some ''POST'',
      headers = [(''Token'', HString ''abc123'')],
      body = Inr [''{"method":{"toString":1}}'']\<rparr>\<close>

definition brokenStreamRequest :: request where
  \<open>brokenStreamRequest =
     \<lparr>url = Some ''/mcp'', reqMethod = Some ''POST'',
      headers = [(''Token'', HString ''abc123'')],
      body = Inl (ErrorObject ''aborted'')\<rparr>\<close>

definition queryRequest :: request where
  \<open>queryRequest =
     \<lparr>url = Some ''/mcp?x=1'', reqMethod = Some ''POST'',
      headers = [(''Token'', HString ''abc123'')],
      body = Inr [''{"jsonrpc":"2.0","id":1,"method":"tools/list"}'']\<rparr>\<close>

definition longTokenRequest :: request where
  \<open>longTokenRequest =
     \<lparr>url = Some ''/mcp'', reqMethod = Some ''GET'',
      headers = [(''token'', HString ''AQDk3vN8x0pLr7TqWm2ZsYb5Hc9Jd'')], body = Inr []\<rparr>\<close>

definition httpProcess :: process where
  "httpProcess =
     \<lparr>MCP_TRANSPORT = None, PORT = Some ''3000'', HOST = Some ''127.0.0.1'',
      argv = [''node'', ''build/index.js'']\<rparr>"

definition badPortProcess :: process where
  "badPortProcess =
     \<lparr>MCP_TRANSPORT = None, PORT = Some ''abc'', HOST = None,
      argv = [''node'', ''build/index.js'']\<rparr>"

definition stdioProcess :: process where
  "stdioProcess =
     \<lparr>MCP_TRANSPORT = None, PORT = None, HOST = None,
      argv = [''node'', ''build/index.js'', ''--stdio'']\<rparr>"

definition exampleReadTools :: "tool list" where
  "exampleReadTools = [\<lparr>name = ''getNowPlaying'', description = ''Get the current track''\<rparr>]"

definition examplePlayTools :: "tool list" where
  "examplePlayTools = [\<lparr>name = ''playMusic'', description = ''Start playback''\<rparr>]"

definition emptyTokenRequest :: request where
  "emptyTokenRequest =
     \<lparr>url = Some ''/mcp'', reqMethod = Some ''POST'',
      headers = [(''Content-Type'', HString ''application/json''), (''Token'', HString [])],
      body = Inr [''{}'']\<rparr>"

section \<open>The decoder always consumes input\<close>

lemma literal_shorter: "literal w v s = Some (x, r) \<Longrightarrow> w \<noteq> [] \<Longrightarrow> length r < length s"
  by (cases s) (auto simp: literal_def split: if_splits)

lemma dropWhile_shorter: "takeWhile P xs \<noteq> [] \<Longrightarrow> length (dropWhile P xs) < length xs"
  by (cases xs) (auto simp: length_dropWhile_le less_Suc_eq_le split: if_splits)

lemma parseFraction_length: "parseFraction s = Some (f, r) \<Longrightarrow> length r \<le> length s"
  by (cases s) (auto simp: parseFraction_def length_dropWhile_le le_SucI split: if_splits)

lemma parseExponent_length: "parseExponent s = Some (e, r) \<Longrightarrow> length r \<le> length s"
  by (cases s)
    (auto simp: parseExponent_def length_dropWhile_le le_SucI Let_def
          split: if_splits list.splits intro: le_trans [OF length_dropWhile_le])

lemma parseNumber_shorter:
  assumes "parseNumber s = Some (t, r)"
  shows "length r < length s"
proof -
  obtain sign s1 where s1: "(case s of [] \<Rightarrow> ([], s)
       | c # cs \<Rightarrow> if c = CHR ''-'' then ([c], cs) else ([], s)) = (sign, s1)"
    by (cases "(case s of [] \<Rightarrow> ([], s)
       | c # cs \<Rightarrow> if c = CHR ''-'' then ([c], cs) else ([], s))") auto
  then have le1: "length s1 \<le> length s"
    by (auto split: list.splits if_splits)
  from assms s1 obtain frac s2 ex where
    ds: "takeWhile isDigit s1 \<noteq> []" and
    fr: "parseFraction (dropWhile isDigit s1) = Some (frac, s2)" and
    ex: "parseExponent s2 = Some (ex, r)"
    by (auto simp: parseNumber_def Let_def split: if_splits option.splits)
  from dropWhile_shorter [OF ds] parseFraction_length [OF fr] parseExponent_length [OF ex] le1
  show ?thesis by simp
qed

text \<open>
  Every successful parse leaves strictly less input than it was given, so the length
  tests in \<open>parseElements\<close> and \<open>parseMembers\<close> always succeed.
\<close>

lemma parse_consumes:
  "(\<forall>v r. parseValue s = Some (v, r) \<longrightarrow> length r < length s)"
  "(\<forall>vs r. parseElements s1 = Some (vs, r) \<longrightarrow> length r < length s1)"
  "(\<forall>kvs r. parseMembers s2 = Some (kvs, r) \<longrightarrow> length r < length s2)"
proof (induction s and s1 and s2 rule: parseValue_parseElements_parseMembers.induct)
  case (1 s)
  show ?case
  proof (intro allI impI)
    fix v r assume a: "parseValue s = Some (v, r)"
    show "length r < length s"
    proof (cases "skipWs s")
      case Nil
      with a show ?thesis by (simp add: parseValue.simps)
    next
      case outer: (Cons c cs)
      note len = skipWs_Cons_length [OF outer]
      consider (arr) "c = CHR ''[''" | (obj) "c \<noteq> CHR ''[''" "c = CHR ''{''"
        | (other) "c \<noteq> CHR ''[''" "c \<noteq> CHR ''{''"
        by blast
      then show ?thesis
      proof cases
        case arr
        show ?thesis
        proof (cases "skipWs cs")
          case Nil
          with a outer arr show ?thesis by (simp add: parseValue.simps)
        next
          case inner: (Cons d ds)
          note len2 = skipWs_Cons_length [OF inner]
          show ?thesis
          proof (cases "d = CHR '']''")
            case True
            with a outer arr inner have "r = ds" by (simp add: parseValue.simps)
            with len len2 show ?thesis by simp
          next
            case False
            with a outer arr inner obtain vs where
              "parseElements (d # ds) = Some (vs, r)"
              by (auto simp: parseValue.simps)
            with "1.IH"(1) [OF outer arr inner False] have "length r < length (d # ds)"
              by blast
            with len len2 show ?thesis by simp
          qed
        qed
      next
        case obj
        show ?thesis
        proof (cases "skipWs cs")
          case Nil
          with a outer obj show ?thesis by (simp add: parseValue.simps)
        next
          case inner: (Cons d ds)
          note len2 = skipWs_Cons_length [OF inner]
          show ?thesis
          proof (cases "d = CHR ''}''")
            case True
            with a outer obj inner have "r = ds" by (simp add: parseValue.simps)
            with len len2 show ?thesis by simp
          next
            case False
            with a outer obj inner obtain kvs where
              "parseMembers (d # ds) = Some (kvs, r)"
              by (auto simp: parseValue.simps)
            with "1.IH"(2) [OF outer obj inner False] have "length r < length (d # ds)"
              by blast
            with len len2 show ?thesis by simp
          qed
        qed
      next
        case other
        with a outer have "length r < length (c # cs)"
          by (auto simp: parseValue.simps split: if_splits
                dest: parseChars_shorter parseNumber_shorter literal_shorter)
        with len show ?thesis by simp
      qed
    qed
  qed
next
  case (2 s)
  show ?case
  proof (intro allI impI)
    fix vs r assume a: "parseElements s = Some (vs, r)"
    then obtain v r1 where v: "parseValue s = Some (v, r1)" and lt: "length r1 < length s"
      by (auto simp: parseElements.simps [of s] split: option.splits if_splits)
    show "length r < length s"
    proof (cases "skipWs r1")
      case Nil
      with a v lt show ?thesis by (simp add: parseElements.simps [of s])
    next
      case (Cons c cs)
      note len = skipWs_Cons_length [OF Cons]
      show ?thesis
      proof (cases "c = CHR '',''")
        case True
        with a v lt Cons obtain vs' where "parseElements cs = Some (vs', r)"
          by (auto simp: parseElements.simps [of s])
        with "2.IH"(2) [OF v refl lt Cons True] have "length r < length cs" by blast
        with len lt show ?thesis by simp
      next
        case False
        with a v lt Cons have "r = cs"
          by (auto simp: parseElements.simps [of s] split: if_splits)
        with len lt show ?thesis by simp
      qed
    qed
  qed
next
  case (3 s)
  show ?case
  proof (intro allI impI)
    fix kvs r assume a: "parseMembers s = Some (kvs, r)"
    then obtain c cs where s: "skipWs s = c # cs"
      by (cases "skipWs s") (auto simp: parseMembers.simps [of s])
    with a have c: "\<not> c \<noteq> CHR 0x22"
      by (auto simp: parseMembers.simps [of s] split: if_splits)
    with a s obtain k r1 where k: "parseChars cs = Some (k, r1)"
      by (cases "parseChars cs") (auto simp: parseMembers.simps [of s])
    with a s c obtain d ds where d: "skipWs r1 = d # ds"
      by (cases "skipWs r1") (auto simp: parseMembers.simps [of s])
    with a s c k have dc: "\<not> d \<noteq> CHR '':''"
      by (auto simp: parseMembers.simps [of s] split: if_splits)
    with a s c k d obtain v r2 where v: "parseValue ds = Some (v, r2)"
      by (cases "parseValue ds") (auto simp: parseMembers.simps [of s])
    with a s c k d dc have lt: "length r2 < length ds"
      by (auto simp: parseMembers.simps [of s] split: if_splits)
    with a s c k d dc v obtain e es where e: "skipWs r2 = e # es"
      by (cases "skipWs r2") (auto simp: parseMembers.simps [of s])
    note lens = skipWs_Cons_length [OF s] parseChars_shorter [OF k]
      skipWs_Cons_length [OF d] skipWs_Cons_length [OF e] lt
    show "length r < length s"
    proof (cases "e = CHR '',''")
      case True
      with a s c k d dc v lt e obtain kvs' where "parseMembers es = Some (kvs', r)"
        by (auto simp: parseMembers.simps [of s])
      with "3.IH"(2) [OF s c k refl d dc v refl lt e True] have "length r < length es"
        by blast
      with lens show ?thesis by simp
    next
      case False
      with a s c k d dc v lt e have "r = es"
        by (auto simp: parseMembers.simps [of s] split: if_splits)
      with lens show ?thesis by simp
    qed
  qed
qed

text \<open>Hence the equation of \<open>parseElements\<close> holds without its length test.\<close>

lemma parseElements_unguarded:
  "parseElements s =
     (case parseValue s of
        None \<Rightarrow> None
      | Some (v, r) \<Rightarrow>
          (case skipWs r of
             [] \<Rightarrow> None
           | c # cs \<Rightarrow>
               if c = CHR '','' then map_option (\<lambda>(vs, r'). (v # vs, r')) (parseElements cs)
               else if c = CHR '']'' then Some ([v], cs)
               else None))"
  using parse_consumes(1) [of s]
  by (subst parseElements.simps) (auto split: option.splits)

section \<open>The envelopes as text\<close>

lemma stringify_notFound:
  \<open>JSON_stringify notFoundBody =
     ''{"jsonrpc":"2.0","error":{"code":-32000,"message":"Not Found"},"id":null}''\<close>
  by (simp add: notFoundBody_def quoteJSONString_def escapeChar_def)

lemma stringify_missingToken:
  \<open>JSON_stringify missingTokenBody =
     ''{"jsonrpc":"2.0","error":{"code":-32000,"message":"Missing refresh token. Include Token header with the refresh token."},"id":null}''\<close>
  by (simp add: missingTokenBody_def quoteJSONString_def escapeChar_def)

lemma stringify_internalError:
  \<open>JSON_stringify (internalErrorBody error) =
     ''{"jsonrpc":"2.0","error":{"code":-32603,"message":'' @
     quoteJSONString
       (case error of ErrorObject message \<Rightarrow> message | OtherValue \<Rightarrow> ''Internal error'') @
     ''},"id":null}''\<close>
  by (simp add: internalErrorBody_def quoteJSONString_def escapeChar_def)

section \<open>The two early returns of the handler\<close>

lemma route_rejected:
  assumes "requestUrl req \<noteq> ''/''" "requestUrl req \<noteq> ''/mcp''"
  shows "requestHandler e req =
     \<lparr>res = \<lparr>headersSent = True,
              written = [WriteHead 404 [(''Content-Type'', ''application/json'')],
                         End (JSON_stringify notFoundBody)]\<rparr>,
      trace = [Reply 404 notFoundBody]\<rparr>"
  using assms
  by (simp add: requestHandler_def tryBlock_def sendJson_def freshWorld_def freshResponse_def)

lemma credential_rejected:
  assumes "requestUrl req = ''/'' \<or> requestUrl req = ''/mcp''"
    and "extractRefreshTokenFromHeaders e (lowerCaseHeaders (headers req)) = None \<or>
         extractRefreshTokenFromHeaders e (lowerCaseHeaders (headers req)) = Some []"
  shows "requestHandler e req =
     \<lparr>res = \<lparr>headersSent = True,
              written = [WriteHead 400 [(''Content-Type'', ''application/json'')],
                         End (JSON_stringify missingTokenBody)]\<rparr>,
      trace = [ExtractToken, Reply 400 missingTokenBody]\<rparr>"
  using assms
  by (auto simp: requestHandler_def tryBlock_def sendJson_def emit_def freshWorld_def
        freshResponse_def)

lemma lowerCaseHeaders_fold:
  "fold (\<lambda>(key, v) h. h(toLowerCase key \<mapsto> v)) hs m =
   fold (\<lambda>(key, v) h. h(key \<mapsto> v)) (map (\<lambda>(k, v). (toLowerCase k, v)) hs) m"
  by (induction hs arbitrary: m) (auto split: prod.splits)

lemma lowerCaseHeaders_case_insensitive:
  assumes "map (\<lambda>(k, v). (toLowerCase k, v)) hs = map (\<lambda>(k, v). (toLowerCase k, v)) hs'"
  shows "lowerCaseHeaders hs = lowerCaseHeaders hs'"
  unfolding lowerCaseHeaders_def lowerCaseHeaders_fold using assms by simp

section \<open>The shape of a handled request\<close>

text \<open>
  A request on an accepted path with a non-empty credential: the handler logs the request
  line, reads and decodes the body, dispatches, and runs its \<^verbatim>\<open>catch\<close> on a throw.
\<close>

lemma handler_accepted:
  assumes "requestUrl req = ''/'' \<or> requestUrl req = ''/mcp''"
    and "extractRefreshTokenFromHeaders e (lowerCaseHeaders (headers req)) = Some t" "t \<noteq> []"
  shows "requestHandler e req =
     (case readParsedBody e req
             \<lparr>res = freshResponse, trace = [ExtractToken, ConsoleLog (requestLogLine e req t)]\<rparr> of
        (Inl error, w) \<Rightarrow> catchBlock error w
      | (Inr p, w) \<Rightarrow>
          (case dispatch e req t p w of
             (None, w') \<Rightarrow> w'
           | (Some error, w') \<Rightarrow> catchBlock error w'))"
  using assms
  by (auto simp: requestHandler_def tryBlock_def emit_def freshWorld_def split: prod.splits sum.splits option.splits)

lemma readParsedBody_cases:
  "readParsedBody e req w =
     (if reqMethod req \<noteq> Some ''POST'' then (Inr None, w)
      else case body req of
        Inl error \<Rightarrow> (Inl error, w\<lparr>trace := trace w @ [ReadBody]\<rparr>)
      | Inr chunks \<Rightarrow>
          if concat chunks = [] then (Inr None, w\<lparr>trace := trace w @ [ReadBody]\<rparr>)
          else (Inr (Some (fst (decodeBody e (concat chunks)))),
                w\<lparr>trace := trace w @ ReadBody # snd (decodeBody e (concat chunks))\<rparr>))"
  by (simp add: readParsedBody_def emit_def Let_def split: sum.splits)

lemma decodeBody_logs: "set (snd (decodeBody e b)) \<subseteq> range ConsoleLogMethod"
  by (auto simp: decodeBody_def split: option.splits json.splits if_splits)

lemma decodeBody_logs_elem:
  "ev \<in> set (snd (decodeBody e b)) \<Longrightarrow> \<exists>m. ev = ConsoleLogMethod m"
  using decodeBody_logs by blast

lemma dispatch_eq:
  "dispatch e req t p w =
     (case handleRequest e t req p (res w) of
        (None, r) \<Rightarrow>
          (None, \<lparr>res = r, trace = trace w @ [HandleRequest t p,
               ConsoleLog (''['' @ now e @ ''] Request completed successfully'')]\<rparr>)
      | (Some error, r) \<Rightarrow>
          (Some error, \<lparr>res = r, trace = trace w @ [HandleRequest t p,
               ConsoleError (''['' @ now e @ ''] Error in request handler:'') error]\<rparr>))"
  by (cases w) (simp add: dispatch_def runWithRefreshToken_def emit_def split: prod.splits option.splits)

lemma catchBlock_eq:
  "catchBlock error w =
     (if headersSent (res w)
      then w\<lparr>trace := trace w @ [ConsoleError ''Error handling request:'' error]\<rparr>
      else \<lparr>res = \<lparr>headersSent = True,
                   written = written (res w) @
                     [WriteHead 500 [(''Content-Type'', ''application/json'')],
                      End (JSON_stringify (internalErrorBody error))]\<rparr>,
            trace = trace w @ [ConsoleError ''Error handling request:'' error,
                               Reply 500 (internalErrorBody error)]\<rparr>)"
  by (cases w) (simp add: catchBlock_def emit_def sendJson_def Let_def)

lemma handler_replies:
  "Reply status v \<in> set (trace (requestHandler e req)) \<Longrightarrow>
     (status = 404 \<and> v = notFoundBody) \<or> (status = 400 \<and> v = missingTokenBody) \<or>
     (\<exists>error. status = 500 \<and> v = internalErrorBody error)"
proof (cases "requestUrl req = ''/'' \<or> requestUrl req = ''/mcp''")
  case False
  assume "Reply status v \<in> set (trace (requestHandler e req))"
  with False show ?thesis by (simp add: route_rejected)
next
  case route: True
  assume a: "Reply status v \<in> set (trace (requestHandler e req))"
  show ?thesis
  proof (cases "extractRefreshTokenFromHeaders e (lowerCaseHeaders (headers req)) = None \<or>
         extractRefreshTokenFromHeaders e (lowerCaseHeaders (headers req)) = Some []")
    case True
    with a route show ?thesis by (simp add: credential_rejected)
  next
    case False
    then obtain t where t: "extractRefreshTokenFromHeaders e (lowerCaseHeaders (headers req)) = Some t" "t \<noteq> []"
      by auto
    from a show ?thesis
      unfolding handler_accepted [OF route t] readParsedBody_cases dispatch_eq catchBlock_eq
      by (auto split: sum.splits prod.splits option.splits if_splits
            dest: decodeBody_logs_elem)
  qed
qed

lemma undecodable_body_passed_as_text:
  assumes "requestUrl req = ''/'' \<or> requestUrl req = ''/mcp''"
    and "extractRefreshTokenFromHeaders e (lowerCaseHeaders (headers req)) = Some t" "t \<noteq> []"
    and "reqMethod req = Some ''POST''" "body req = Inr chunks" "concat chunks \<noteq> []"
    and "JSON_parse (concat chunks) = None"
  shows "take 4 (trace (requestHandler e req)) =
           [ExtractToken, ConsoleLog (requestLogLine e req t), ReadBody,
            HandleRequest t (Some (JStr (concat chunks)))]"
  unfolding handler_accepted [OF assms(1-3)] readParsedBody_cases dispatch_eq catchBlock_eq
  using assms(4-7)
  by (auto simp: decodeBody_def split: sum.splits prod.splits option.splits if_splits)

lemma decoded_body_passed:
  assumes "requestUrl req = ''/'' \<or> requestUrl req = ''/mcp''"
    and "extractRefreshTokenFromHeaders e (lowerCaseHeaders (headers req)) = Some t" "t \<noteq> []"
    and "reqMethod req = Some ''POST''" "body req = Inr chunks" "concat chunks \<noteq> []"
    and "JSON_parse (concat chunks) = Some v"
    and "\<And>m. property v ''method'' = Some m \<Longrightarrow> \<not> toStringThrows m \<and> \<not> stackOverflow e m"
  shows "HandleRequest t (Some v) \<in> set (trace (requestHandler e req))"
  unfolding handler_accepted [OF assms(1-3)] readParsedBody_cases dispatch_eq catchBlock_eq
  using assms(4-8)
  by (auto simp: decodeBody_def property_def split: sum.splits prod.splits option.splits if_splits json.splits)

lemma handler_events:
  "ev \<in> set (trace (requestHandler e req)) \<Longrightarrow> \<not> isServerTool ev \<and> \<not> isServerConnect ev"
proof (cases "requestUrl req = ''/'' \<or> requestUrl req = ''/mcp''")
  case False
  assume "ev \<in> set (trace (requestHandler e req))"
  with False show ?thesis by (auto simp: route_rejected)
next
  case route: True
  assume a: "ev \<in> set (trace (requestHandler e req))"
  show ?thesis
  proof (cases "extractRefreshTokenFromHeaders e (lowerCaseHeaders (headers req)) = None \<or>
         extractRefreshTokenFromHeaders e (lowerCaseHeaders (headers req)) = Some []")
    case True
    with a route show ?thesis by (auto simp: credential_rejected)
  next
    case False
    then obtain t where
      t: "extractRefreshTokenFromHeaders e (lowerCaseHeaders (headers req)) = Some t" "t \<noteq> []"
      by auto
    from a show ?thesis
      unfolding handler_accepted [OF route t] readParsedBody_cases dispatch_eq catchBlock_eq
      by (auto split: sum.splits prod.splits option.splits if_splits
            dest!: decodeBody_logs_elem)
  qed
qed

section \<open>The start-up trace\<close>

lemma registerTools_events: "\<exists>n. fst (registerTools k reg ts) = map ServerTool (take n ts)"
proof (induction ts arbitrary: reg)
  case Nil
  show ?case by simp
next
  case (Cons t ts)
  show ?case
  proof (cases "serverTool k reg t")
    case None
    from Cons [of "reg @ [name t]"] obtain n where
      n: "fst (registerTools k (reg @ [name t]) ts) = map ServerTool (take n ts)" ..
    from None have "fst (registerTools k reg (t # ts)) =
        ServerTool t # fst (registerTools k (reg @ [name t]) ts)"
      by simp
    also have "\<dots> = map ServerTool (take (Suc n) (t # ts))"
      unfolding n by simp
    finally show ?thesis ..
  next
    case (Some error)
    then have "fst (registerTools k reg (t # ts)) = map ServerTool (take (Suc 0) (t # ts))"
      by simp
    then show ?thesis ..
  qed
qed

lemma registerTools_complete:
  "snd (registerTools k reg ts) = None \<Longrightarrow> fst (registerTools k reg ts) = map ServerTool ts"
proof (induction ts arbitrary: reg)
  case Nil
  show ?case by simp
next
  case (Cons t ts)
  show ?case
  proof (cases "serverTool k reg t")
    case None
    with Cons.prems have "snd (registerTools k (reg @ [name t]) ts) = None" by simp
    from Cons.IH [OF this] None show ?thesis by simp
  next
    case (Some error)
    with Cons.prems show ?thesis by simp
  qed
qed

lemma main_no_tool: "ev \<in> set (main k p) \<Longrightarrow> \<not> isServerTool ev"
  by (auto simp: main_def split: if_splits option.splits)

lemma tools_then_rest:
  assumes "\<And>ev. ev \<in> set A \<Longrightarrow> isServerTool ev \<and> \<not> isServerConnect ev"
    and "\<And>ev. ev \<in> set B \<Longrightarrow> \<not> isServerTool ev"
    and "i < length (A @ B)" "j < length (A @ B)"
    and "isServerTool ((A @ B) ! i)" "isServerConnect ((A @ B) ! j)"
  shows "i < j"
proof -
  have "i < length A"
  proof (rule ccontr)
    assume "\<not> i < length A"
    then have "(A @ B) ! i \<in> set B" using assms(3) by (simp add: nth_append)
    with assms(2,5) show False by blast
  qed
  moreover have "\<not> j < length A"
  proof
    assume "j < length A"
    then have "(A @ B) ! j \<in> set A" by (simp add: nth_append)
    with assms(1,6) show False by blast
  qed
  ultimately show ?thesis by simp
qed

lemma program_completed:
  assumes "snd (registerTools k [] (r @ pl @ al)) = None"
  shows "program k p r pl al =
     map ServerTool (r @ pl @ al) @ afterRegistration k p (r @ pl @ al)"
proof -
  obtain es x where eq: "registerTools k [] (r @ pl @ al) = (es, x)"
    by (cases "registerTools k [] (r @ pl @ al)")
  from assms eq have x: "x = None" by simp
  from registerTools_complete [OF assms] eq have es: "es = map ServerTool (r @ pl @ al)"
    by simp
  show ?thesis
    unfolding program_def Let_def eq x es afterRegistration_def by simp
qed

lemma program_aborted:
  assumes "snd (registerTools k [] (r @ pl @ al)) = Some error"
  shows "\<exists>n. program k p r pl al = map ServerTool (take n (r @ pl @ al)) @ []"
proof -
  obtain es x where eq: "registerTools k [] (r @ pl @ al) = (es, x)"
    by (cases "registerTools k [] (r @ pl @ al)")
  from assms eq have x: "x = Some error" by simp
  from registerTools_events [of k "[]" "r @ pl @ al"] eq obtain n where
    es: "es = map ServerTool (take n (r @ pl @ al))" by auto
  have "program k p r pl al = map ServerTool (take n (r @ pl @ al)) @ []"
    unfolding program_def Let_def eq x es by simp
  then show ?thesis ..
qed

lemma afterRegistration_no_tool: "ev \<in> set (afterRegistration k p ts) \<Longrightarrow> \<not> isServerTool ev"
  by (auto simp: afterRegistration_def dest: main_no_tool)

lemma tools_only: "ev \<in> set (map ServerTool ts) \<Longrightarrow> isServerTool ev \<and> \<not> isServerConnect ev"
  by auto

lemma filter_tools: "filter isServerTool (map ServerTool ts) = map ServerTool ts"
  by (induction ts) auto

lemma filter_no_tools: "(\<And>ev. ev \<in> set B \<Longrightarrow> \<not> isServerTool ev) \<Longrightarrow> filter isServerTool B = []"
  by (induction B) auto

section \<open>Reading a port number\<close>

lemma decimal_digits: "c \<in> set (decimal n) \<Longrightarrow> isDigit c"
proof (induction n rule: decimal.induct)
  case (1 n)
  show ?case
  proof (cases "n < 10")
    case True
    with "1.prems" show ?thesis
      by (simp add: decimal.simps [of n] isDigit_def of_char_of)
  next
    case False
    with "1.prems" have "c \<in> set (decimal (n div 10)) \<or> c = char_of (48 + n mod 10)"
      by (auto simp: decimal.simps [of n])
    then show ?thesis
    proof
      assume "c \<in> set (decimal (n div 10))"
      with "1.IH" [OF False] show ?thesis .
    next
      assume "c = char_of (48 + n mod 10)"
      moreover have "n mod 10 < 10" by simp
      ultimately show ?thesis
        by (simp add: isDigit_def of_char_of)
    qed
  qed
qed

lemma decimal_nonempty: "decimal n \<noteq> []"
  by (subst decimal.simps) simp

lemma digitValue_digit:
  "isDigit c \<Longrightarrow> digitValue 10 c = Some ((of_char c :: nat) - 48)"
  by (auto simp: isDigit_def digitValue_def hexValue_def Let_def)

lemma decimal_value:
  "foldl (\<lambda>a c. case digitValue 10 c of None \<Rightarrow> a | Some d \<Rightarrow> a * int 10 + int d) 0 (decimal n) =
     int n"
proof (induction n rule: decimal.induct)
  case (1 n)
  show ?case
  proof (cases "n < 10")
    case True
    then have "digitValue 10 (char_of (48 + n)) = Some n"
      by (simp add: digitValue_def hexValue_def Let_def of_char_of)
    with True show ?thesis
      by (simp add: decimal.simps [of n])
  next
    case False
    have "n mod 10 < 10" by simp
    then have d: "digitValue 10 (char_of (48 + n mod 10)) = Some (n mod 10)"
      by (simp add: digitValue_def hexValue_def Let_def of_char_of)
    have e: "int (n div 10) * 10 + int (n mod 10) = int n"
      by presburger
    from False "1.IH" [OF False] d e show ?thesis
      by (simp add: decimal.simps [of n])
  qed
qed

lemma whiteSpace_heads: "w \<in> set strWhiteSpace \<Longrightarrow> w \<noteq> [] \<and> \<not> isDigit (hd w)"
proof -
  have "list_all (\<lambda>w. w \<noteq> [] \<and> \<not> isDigit (hd w)) strWhiteSpace"
    by code_simp
  then show "w \<in> set strWhiteSpace \<Longrightarrow> w \<noteq> [] \<and> \<not> isDigit (hd w)"
    by (simp add: list_all_iff)
qed

lemma whiteSpacePrefix_digit:
  assumes "s \<noteq> []" "isDigit (hd s)"
  shows "whiteSpacePrefix s = None"
proof -
  have "take (length w) s \<noteq> w" if w: "w \<in> set strWhiteSpace" for w
  proof
    assume eq: "take (length w) s = w"
    from whiteSpace_heads [OF w] have ne: "w \<noteq> []" and nd: "\<not> isDigit (hd w)" by blast+
    from ne have "0 < length w" by simp
    with assms(1) have "hd (take (length w) s) = hd s" by (cases s) (auto simp: take_Cons')
    with eq nd assms(2) show False by simp
  qed
  then show ?thesis by (simp add: whiteSpacePrefix_def find_None_iff)
qed

lemma trimStart_digit: "s \<noteq> [] \<Longrightarrow> isDigit (hd s) \<Longrightarrow> trimStart s = s"
  by (subst trimStart.simps) (simp add: whiteSpacePrefix_digit)

lemma parseInt_decimal:
  assumes "n < 2 ^ 53"
  shows "parseInt (decimal n) = Exact (int n)"
proof -
  have ne: "decimal n \<noteq> []" by (rule decimal_nonempty)
  then have hdd: "isDigit (hd (decimal n))"
    using decimal_digits [of "hd (decimal n)" n] by simp
  have ws: "trimStart (decimal n) = decimal n"
    using ne hdd by (rule trimStart_digit)
  have sign: "hd (decimal n) \<noteq> CHR ''+''" "hd (decimal n) \<noteq> CHR ''-''"
    using hdd by (auto simp: isDigit_def)
  have two: "\<And>c. c \<in> set (take 2 (decimal n)) \<Longrightarrow> isDigit c"
    using decimal_digits by (meson in_set_takeD)
  have nx: "\<not> isDigit (CHR ''x'')" "\<not> isDigit (CHR ''X'')"
    by code_simp+
  have hex: "take 2 (decimal n) \<noteq> ''0x''" "take 2 (decimal n) \<noteq> ''0X''"
  proof -
    show "take 2 (decimal n) \<noteq> ''0x''"
    proof
      assume "take 2 (decimal n) = ''0x''"
      then have "CHR ''x'' \<in> set (take 2 (decimal n))" by simp
      with two nx show False by blast
    qed
    show "take 2 (decimal n) \<noteq> ''0X''"
    proof
      assume "take 2 (decimal n) = ''0X''"
      then have "CHR ''X'' \<in> set (take 2 (decimal n))" by simp
      with two nx show False by blast
    qed
  qed
  have all: "takeWhile (\<lambda>c. digitValue 10 c \<noteq> None) (decimal n) = decimal n"
    using decimal_digits digitValue_digit by (intro takeWhile_eq_all_conv [THEN iffD2]) auto
  have s1: "(if decimal n \<noteq> [] \<and> (hd (decimal n) = CHR ''+'' \<or> hd (decimal n) = CHR ''-'')
       then tl (decimal n) else decimal n) = decimal n"
    using sign by simp
  have neg: "(decimal n \<noteq> [] \<and> hd (decimal n) = CHR ''-'') = False"
    using sign by simp
  have hx: "(take 2 (decimal n) = ''0x'' \<or> take 2 (decimal n) = ''0X'') = False"
    using hex by simp
  from assms have small: "int n < 9007199254740992" by simp
  show ?thesis
    unfolding parseInt_def Let_def ws s1 neg hx if_False all decimal_value
    using ne small by simp
qed

text \<open>
  White space outside ASCII, a sign, a hexadecimal prefix, trailing text and a value of
  \<open>2 ^ 53\<close> or more.
\<close>

lemma parseInt_examples:
  "parseInt ''8080'' = Exact 8080"
  "parseInt (CHR 0xC2 # CHR 0xA0 # CHR 0x09 # ''+8080abc'') = Exact 8080"
  "parseInt '' -0x1Fz'' = Exact (- 31)"
  "parseInt ''9007199254740993'' = Huge"
  "parseInt ''9007199254740991'' = Exact 9007199254740991"
  "parseInt ''0x'' = NaN"
  "parseInt ''abc'' = NaN"
  by code_simp+

section \<open>Claims\<close>

text \<open>
  C2. A request on an accepted path whose headers yield no credential, or an empty one, is
  answered with status 400 and exactly the body
  \<^verbatim>\<open>{"jsonrpc":"2.0","error":{"code":-32000,"message":"Missing refresh token. Include Token header with the refresh token."},"id":null}\<close>;
  the handler does nothing but extract the credential and reply, so the body of the
  request is never read; and the outcome is the same for every spelling of the header
  names that differs in letter case only. This holds for every extraction function.
\<close>

theorem missing_credential_rejected:
  assumes "requestUrl req = ''/'' \<or> requestUrl req = ''/mcp''"
    and "extractRefreshTokenFromHeaders e (lowerCaseHeaders (headers req)) = None \<or>
         extractRefreshTokenFromHeaders e (lowerCaseHeaders (headers req)) = Some []"
  shows \<open>written (res (requestHandler e req)) =
           [WriteHead 400 [(''Content-Type'', ''application/json'')],
            End ''{"jsonrpc":"2.0","error":{"code":-32000,"message":"Missing refresh token. Include Token header with the refresh token."},"id":null}''] \<and>
         trace (requestHandler e req) = [ExtractToken, Reply 400 missingTokenBody] \<and>
         ReadBody \<notin> set (trace (requestHandler e req)) \<and>
         (\<forall>hs. map (\<lambda>(k, v). (toLowerCase k, v)) hs =
                  map (\<lambda>(k, v). (toLowerCase k, v)) (headers req) \<longrightarrow>
               requestHandler e (req\<lparr>headers := hs\<rparr>) = requestHandler e req)\<close>
proof -
  have same: "requestHandler e (req\<lparr>headers := hs\<rparr>) = requestHandler e req"
    if "map (\<lambda>(k, v). (toLowerCase k, v)) hs = map (\<lambda>(k, v). (toLowerCase k, v)) (headers req)"
    for hs
  proof -
    have l: "lowerCaseHeaders (headers (req\<lparr>headers := hs\<rparr>)) = lowerCaseHeaders (headers req)"
      using lowerCaseHeaders_case_insensitive [OF that] by simp
    have u: "requestUrl (req\<lparr>headers := hs\<rparr>) = requestUrl req"
      by (simp add: requestUrl_def)
    show ?thesis
      using credential_rejected [of "req\<lparr>headers := hs\<rparr>" e] credential_rejected [OF assms] assms
      unfolding l u by simp
  qed
  from credential_rejected [OF assms] same show ?thesis
    by (simp add: stringify_missingToken)
qed

theorem missing_credential_rejected_witness:
  \<open>requestUrl emptyTokenRequest = ''/mcp'' \<and>
   extractRefreshTokenFromHeaders (exampleEnv answering)
     (lowerCaseHeaders (headers emptyTokenRequest)) = Some [] \<and>
   written (res (requestHandler (exampleEnv answering) emptyTokenRequest)) =
     [WriteHead 400 [(''Content-Type'', ''application/json'')],
      End ''{"jsonrpc":"2.0","error":{"code":-32000,"message":"Missing refresh token. Include Token header with the refresh token."},"id":null}''] \<and>
   ReadBody \<notin> set (trace (requestHandler (exampleEnv answering) emptyTokenRequest)) \<and>
   requestHandler (exampleEnv answering)
     (emptyTokenRequest\<lparr>headers := [(''content-type'', HString ''application/json''),
                                    (''TOKEN'', HString [])]\<rparr>) =
   requestHandler (exampleEnv answering) emptyTokenRequest\<close>
proof -
  have h1: "requestUrl emptyTokenRequest = ''/mcp''"
    by (simp add: requestUrl_def emptyTokenRequest_def)
  have "lowerCaseHeaders (headers emptyTokenRequest) ''token'' = Some (HString [])"
    by code_simp
  then have h2: "extractRefreshTokenFromHeaders (exampleEnv answering)
     (lowerCaseHeaders (headers emptyTokenRequest)) = Some []"
    by (simp add: exampleEnv_def tokenHeader_def)
  have h3: "map (\<lambda>(k, v). (toLowerCase k, v))
       [(''content-type'', HString ''application/json''), (''TOKEN'', HString [])] =
     map (\<lambda>(k, v). (toLowerCase k, v)) (headers emptyTokenRequest)"
    by code_simp
  from missing_credential_rejected [of emptyTokenRequest "exampleEnv answering"] h1 h2 h3
  show ?thesis by simp
qed

text \<open>
  C3, as amended. The route check compares the whole request target \<^verbatim>\<open>req.url\<close> (the path
  together with any query string; \<^verbatim>\<open>/\<close> when it is absent or empty) with \<^verbatim>\<open>/\<close> and
  \<^verbatim>\<open>/mcp\<close>. A request whose target is neither is answered with status 404 and the JSON-RPC
  envelope \<^verbatim>\<open>{"jsonrpc":"2.0","error":{"code":-32000,"message":"Not Found"},"id":null}\<close>,
  and that is all the handler does: no credential extraction, no body read, no dispatch.
  A request whose target is exactly \<^verbatim>\<open>/\<close> or \<^verbatim>\<open>/mcp\<close> is never answered by the route
  check: the handler goes on to extract the credential.
\<close>

theorem route_check:
  \<open>(requestUrl req \<noteq> ''/'' \<and> requestUrl req \<noteq> ''/mcp'' \<longrightarrow>
      requestHandler e req =
        \<lparr>res = \<lparr>headersSent = True,
                 written =
                   [WriteHead 404 [(''Content-Type'', ''application/json'')],
                    End ''{"jsonrpc":"2.0","error":{"code":-32000,"message":"Not Found"},"id":null}'']\<rparr>,
         trace = [Reply 404 notFoundBody]\<rparr> \<and>
      property notFoundBody ''id'' = Some JNull \<and>
      ExtractToken \<notin> set (trace (requestHandler e req)) \<and>
      ReadBody \<notin> set (trace (requestHandler e req)) \<and>
      (\<forall>a p. HandleRequest a p \<notin> set (trace (requestHandler e req)))) \<and>
   (requestUrl req = ''/'' \<or> requestUrl req = ''/mcp'' \<longrightarrow>
      Reply 404 notFoundBody \<notin> set (trace (requestHandler e req)) \<and>
      hd (trace (requestHandler e req)) = ExtractToken) \<and>
   (url req = None \<or> url req = Some [] \<longrightarrow> requestUrl req = ''/'') \<and>
   (\<forall>u. url req = Some u \<longrightarrow> u \<noteq> [] \<longrightarrow> requestUrl req = u)\<close>
proof -
  have a: "property notFoundBody ''id'' = Some JNull"
    by (simp add: property_def getProperty_def notFoundBody_def)
  have b: "Reply 404 notFoundBody \<notin> set (trace (requestHandler e req)) \<and>
      hd (trace (requestHandler e req)) = ExtractToken"
    if route: "requestUrl req = ''/'' \<or> requestUrl req = ''/mcp''"
  proof (cases "extractRefreshTokenFromHeaders e (lowerCaseHeaders (headers req)) = None \<or>
         extractRefreshTokenFromHeaders e (lowerCaseHeaders (headers req)) = Some []")
    case True
    with route show ?thesis by (simp add: credential_rejected)
  next
    case False
    then obtain t where t: "extractRefreshTokenFromHeaders e (lowerCaseHeaders (headers req)) = Some t" "t \<noteq> []"
      by auto
    show ?thesis
      unfolding handler_accepted [OF route t] readParsedBody_cases dispatch_eq catchBlock_eq
      using decodeBody_logs
      by (auto split: sum.splits prod.splits option.splits if_splits)
  qed
  have c: "(url req = None \<or> url req = Some [] \<longrightarrow> requestUrl req = ''/'') \<and>
   (\<forall>u. url req = Some u \<longrightarrow> u \<noteq> [] \<longrightarrow> requestUrl req = u)"
    by (auto simp: requestUrl_def)
  from a b c show ?thesis
    by (auto simp: route_rejected stringify_notFound)
qed

theorem route_check_witness:
  \<open>requestUrl queryRequest \<noteq> ''/'' \<and> requestUrl queryRequest \<noteq> ''/mcp'' \<and>
   requestHandler (exampleEnv answering) queryRequest =
        \<lparr>res = \<lparr>headersSent = True,
                 written =
                   [WriteHead 404 [(''Content-Type'', ''application/json'')],
                    End ''{"jsonrpc":"2.0","error":{"code":-32000,"message":"Not Found"},"id":null}'']\<rparr>,
         trace = [Reply 404 notFoundBody]\<rparr> \<and>
   requestUrl getRequest = ''/'' \<and>
   Reply 404 notFoundBody \<notin> set (trace (requestHandler (exampleEnv answering) getRequest)) \<and>
   hd (trace (requestHandler (exampleEnv answering) getRequest)) = ExtractToken \<and>
   url queryRequest = Some ''/mcp?x=1'' \<and> requestUrl queryRequest = ''/mcp?x=1''\<close>
proof -
  have h1: "requestUrl queryRequest \<noteq> ''/'' \<and> requestUrl queryRequest \<noteq> ''/mcp''"
    by (simp add: requestUrl_def queryRequest_def)
  have h2: "requestUrl getRequest = ''/''"
    by (simp add: requestUrl_def getRequest_def)
  have h3: "url queryRequest = Some ''/mcp?x=1''"
    by (simp add: queryRequest_def)
  from route_check [of queryRequest "exampleEnv answering"]
    route_check [of getRequest "exampleEnv answering"] h1 h2 h3
  show ?thesis by simp
qed

text \<open>
  C3 as stated fails for a request to the path \<^verbatim>\<open>/mcp\<close> that carries a query string: its
  path is \<^verbatim>\<open>/mcp\<close>, it has a credential, and the route check answers it with 404.
\<close>

theorem query_string_rejected_counterexample:
  \<open>url queryRequest = Some ''/mcp?x=1'' \<and>
   urlPath ''/mcp?x=1'' = ''/mcp'' \<and>
   extractRefreshTokenFromHeaders (exampleEnv answering)
     (lowerCaseHeaders (headers queryRequest)) = Some ''abc123'' \<and>
   requestHandler (exampleEnv answering) queryRequest =
     \<lparr>res = \<lparr>headersSent = True,
              written =
                [WriteHead 404 [(''Content-Type'', ''application/json'')],
                 End ''{"jsonrpc":"2.0","error":{"code":-32000,"message":"Not Found"},"id":null}'']\<rparr>,
      trace = [Reply 404 notFoundBody]\<rparr>\<close>
  by code_simp

text \<open>
  C4 at a failing input. The body \<^verbatim>\<open>{"method":{"toString":1}}\<close> is valid JSON, but
  converting its \<^verbatim>\<open>method\<close> for the log line throws inside the \<^verbatim>\<open>try\<close> that guards
  \<^verbatim>\<open>JSON.parse\<close>, so the \<^verbatim>\<open>catch\<close> replaces the decoded value by the raw text: the
  transport is handed a string, not the decoded object.
\<close>

theorem logging_throw_discards_decoded_body:
  \<open>body toStringRequest = Inr [''{"method":{"toString":1}}''] \<and>
   JSON_parse ''{"method":{"toString":1}}'' =
     Some (JObj [(''method'', JObj [(''toString'', JNum ''1'')])]) \<and>
   trace (requestHandler (exampleEnv answering) toStringRequest) =
     [ExtractToken, ConsoleLog ''[2025-01-01T00:00:00.000Z] POST /mcp - Token: abc123'',
      ReadBody, HandleRequest ''abc123'' (Some (JStr ''{"method":{"toString":1}}'')),
      ConsoleLog ''[2025-01-01T00:00:00.000Z] Request completed successfully'']\<close>
  by code_simp

text \<open>
  C5. Let a request be on an accepted path with a non-empty credential. If reading its
  body throws, the response is status 500 with the envelope of code -32603 carrying the
  error's message. If the dispatch throws and the transport has not sent headers, the same
  envelope with status 500 is appended to the response as the transport left it. If the
  transport has sent headers, the response stays exactly as the transport left it, the
  handler replies nothing, and the last thing it does is log the error.
\<close>

theorem internal_failure_reported:
  assumes "requestUrl req = ''/'' \<or> requestUrl req = ''/mcp''"
    and "extractRefreshTokenFromHeaders e (lowerCaseHeaders (headers req)) = Some t" "t \<noteq> []"
  shows \<open>(\<forall>error. reqMethod req = Some ''POST'' \<longrightarrow> body req = Inl error \<longrightarrow>
            res (requestHandler e req) =
              \<lparr>headersSent = True,
               written = [WriteHead 500 [(''Content-Type'', ''application/json'')],
                          End (JSON_stringify (internalErrorBody error))]\<rparr>) \<and>
         (\<forall>p error r. HandleRequest t p \<in> set (trace (requestHandler e req)) \<longrightarrow>
            handleRequest e t req p freshResponse = (Some error, r) \<longrightarrow>
            (\<not> headersSent r \<longrightarrow>
               res (requestHandler e req) =
                 \<lparr>headersSent = True,
                  written = written r @
                    [WriteHead 500 [(''Content-Type'', ''application/json'')],
                     End (JSON_stringify (internalErrorBody error))]\<rparr>) \<and>
            (headersSent r \<longrightarrow>
               res (requestHandler e req) = r \<and>
               last (trace (requestHandler e req)) =
                 ConsoleError ''Error handling request:'' error \<and>
               (\<forall>status v. Reply status v \<notin> set (trace (requestHandler e req))))) \<and>
         (\<forall>error. JSON_stringify (internalErrorBody error) =
            ''{"jsonrpc":"2.0","error":{"code":-32603,"message":'' @
            quoteJSONString
              (case error of ErrorObject message \<Rightarrow> message | OtherValue \<Rightarrow> ''Internal error'') @
            ''},"id":null}'')\<close>
  unfolding handler_accepted [OF assms] readParsedBody_cases dispatch_eq catchBlock_eq
  using decodeBody_logs stringify_internalError
  by (auto simp: freshResponse_def split: sum.splits prod.splits option.splits if_splits)

theorem internal_failure_reported_witness:
  \<open>requestUrl brokenStreamRequest = ''/mcp'' \<and>
   extractRefreshTokenFromHeaders (exampleEnv answering)
     (lowerCaseHeaders (headers brokenStreamRequest)) = Some ''abc123'' \<and>
   reqMethod brokenStreamRequest = Some ''POST'' \<and>
   body brokenStreamRequest = Inl (ErrorObject ''aborted'') \<and>
   res (requestHandler (exampleEnv answering) brokenStreamRequest) =
     \<lparr>headersSent = True,
      written = [WriteHead 500 [(''Content-Type'', ''application/json'')],
                 End ''{"jsonrpc":"2.0","error":{"code":-32603,"message":"aborted"},"id":null}'']\<rparr> \<and>
   HandleRequest ''abc123'' None
     \<in> set (trace (requestHandler (exampleEnv failingLate) getRequest)) \<and>
   handleRequest (exampleEnv failingLate) ''abc123'' getRequest None freshResponse =
     (Some (ErrorObject ''boom''),
      \<lparr>headersSent = True,
       written = [WriteHead 200 [(''Content-Type'', ''text/event-stream'')]]\<rparr>) \<and>
   res (requestHandler (exampleEnv failingLate) getRequest) =
     \<lparr>headersSent = True,
      written = [WriteHead 200 [(''Content-Type'', ''text/event-stream'')]]\<rparr> \<and>
   last (trace (requestHandler (exampleEnv failingLate) getRequest)) =
     ConsoleError ''Error handling request:'' (ErrorObject ''boom'')\<close>
proof -
  have h1: "requestUrl brokenStreamRequest = ''/mcp''"
    by (simp add: requestUrl_def brokenStreamRequest_def)
  have "lowerCaseHeaders (headers brokenStreamRequest) ''token'' = Some (HString ''abc123'')"
    by code_simp
  then have h2: "extractRefreshTokenFromHeaders (exampleEnv answering)
     (lowerCaseHeaders (headers brokenStreamRequest)) = Some ''abc123''"
    by (simp add: exampleEnv_def tokenHeader_def)
  have h3: "reqMethod brokenStreamRequest = Some ''POST''"
    "body brokenStreamRequest = Inl (ErrorObject ''aborted'')"
    by (simp_all add: brokenStreamRequest_def)
  have s: \<open>JSON_stringify (internalErrorBody (ErrorObject ''aborted'')) =
      ''{"jsonrpc":"2.0","error":{"code":-32603,"message":"aborted"},"id":null}''\<close>
    by code_simp
  from internal_failure_reported
    [of brokenStreamRequest "exampleEnv answering" "''abc123''"] h1 h2 h3
  have a: "res (requestHandler (exampleEnv answering) brokenStreamRequest) =
     \<lparr>headersSent = True,
      written = [WriteHead 500 [(''Content-Type'', ''application/json'')],
                 End (JSON_stringify (internalErrorBody (ErrorObject ''aborted'')))]\<rparr>"
    by simp
  have g1: "requestUrl getRequest = ''/''"
    by (simp add: requestUrl_def getRequest_def)
  have "lowerCaseHeaders (headers getRequest) ''token'' = Some (HString ''abc123'')"
    by code_simp
  then have g2: "extractRefreshTokenFromHeaders (exampleEnv failingLate)
     (lowerCaseHeaders (headers getRequest)) = Some ''abc123''"
    by (simp add: exampleEnv_def tokenHeader_def)
  have g3: "HandleRequest ''abc123'' None
     \<in> set (trace (requestHandler (exampleEnv failingLate) getRequest))"
    by code_simp
  have g4: "handleRequest (exampleEnv failingLate) ''abc123'' getRequest None freshResponse =
     (Some (ErrorObject ''boom''),
      \<lparr>headersSent = True,
       written = [WriteHead 200 [(''Content-Type'', ''text/event-stream'')]]\<rparr>)"
    by (simp add: exampleEnv_def failingLate_def freshResponse_def)
  from internal_failure_reported
    [of getRequest "exampleEnv failingLate" "''abc123''"] g1 g2
  have "\<forall>p error r. HandleRequest ''abc123'' p
          \<in> set (trace (requestHandler (exampleEnv failingLate) getRequest)) \<longrightarrow>
        handleRequest (exampleEnv failingLate) ''abc123'' getRequest p freshResponse =
          (Some error, r) \<longrightarrow>
        headersSent r \<longrightarrow>
          res (requestHandler (exampleEnv failingLate) getRequest) = r \<and>
          last (trace (requestHandler (exampleEnv failingLate) getRequest)) =
            ConsoleError ''Error handling request:'' error"
    by simp
  from this [rule_format, OF g3 g4] have b:
    "res (requestHandler (exampleEnv failingLate) getRequest) =
       \<lparr>headersSent = True,
        written = [WriteHead 200 [(''Content-Type'', ''text/event-stream'')]]\<rparr> \<and>
     last (trace (requestHandler (exampleEnv failingLate) getRequest)) =
       ConsoleError ''Error handling request:'' (ErrorObject ''boom'')"
    by simp
  from h1 h2 h3 a s g3 g4 b show ?thesis by simp
qed

text \<open>
  C6, as amended. Every envelope the handler itself sends (status 404, 400 or 500) has
  \<^verbatim>\<open>id\<close> null, whatever the request was; the handler never echoes the id of the request.
\<close>

theorem own_envelopes_have_null_id:
  "Reply status v \<in> set (trace (requestHandler e req)) \<longrightarrow>
     property v ''id'' = Some JNull \<and> (status = 404 \<or> status = 400 \<or> status = 500)"
proof
  assume "Reply status v \<in> set (trace (requestHandler e req))"
  from handler_replies [OF this] show
    "property v ''id'' = Some JNull \<and> (status = 404 \<or> status = 400 \<or> status = 500)"
    by (auto simp: property_def getProperty_def notFoundBody_def missingTokenBody_def
          internalErrorBody_def)
qed

theorem own_envelopes_have_null_id_witness:
  "Reply 500 (internalErrorBody (ErrorObject ''boom''))
     \<in> set (trace (requestHandler (exampleEnv failingEarly) idSevenRequest)) \<and>
   property (internalErrorBody (ErrorObject ''boom'')) ''id'' = Some JNull"
proof -
  have h: "Reply 500 (internalErrorBody (ErrorObject ''boom''))
     \<in> set (trace (requestHandler (exampleEnv failingEarly) idSevenRequest))"
    by code_simp
  from own_envelopes_have_null_id
    [of 500 "internalErrorBody (ErrorObject ''boom'')" "exampleEnv failingEarly" idSevenRequest] h
  show ?thesis by simp
qed

text \<open>
  C6 as stated fails for a request whose body was decoded and carries \<^verbatim>\<open>"id":7\<close>: the
  transport receives the decoded body, throws before sending headers, and the envelope
  sent has \<^verbatim>\<open>"id":null\<close>.
\<close>

theorem request_id_not_echoed_counterexample:
  \<open>JSON_parse (concat [''{"jsonrpc":"2.0","id":7,'', ''"method":"tools/call"}'']) =
     Some (JObj [(''jsonrpc'', JStr ''2.0''), (''id'', JNum ''7''),
                 (''method'', JStr ''tools/call'')]) \<and>
   body idSevenRequest = Inr [''{"jsonrpc":"2.0","id":7,'', ''"method":"tools/call"}''] \<and>
   HandleRequest ''abc123''
     (Some (JObj [(''jsonrpc'', JStr ''2.0''), (''id'', JNum ''7''),
                  (''method'', JStr ''tools/call'')]))
     \<in> set (trace (requestHandler (exampleEnv failingEarly) idSevenRequest)) \<and>
   written (res (requestHandler (exampleEnv failingEarly) idSevenRequest)) =
     [WriteHead 500 [(''Content-Type'', ''application/json'')],
      End ''{"jsonrpc":"2.0","error":{"code":-32603,"message":"boom"},"id":null}'']\<close>
  by code_simp

text \<open>
  C7, as amended. The logged preview has at most 23 characters. For a credential of more
  than 20 characters it is the first 20 characters followed by three dots; for a
  credential of 20 characters or fewer it is the whole credential. The request line holds
  the preview, and the only other line the handler logs with \<^verbatim>\<open>console.log\<close> as text is the
  completion line.
\<close>

theorem token_preview_logged:
  "length (tokenPreview t) \<le> 23 \<and>
   (20 < length t \<longrightarrow> tokenPreview t = take 20 t @ ''...'') \<and>
   (length t \<le> 20 \<longrightarrow> tokenPreview t = t) \<and>
   ((requestUrl req = ''/'' \<or> requestUrl req = ''/mcp'') \<longrightarrow>
    extractRefreshTokenFromHeaders e (lowerCaseHeaders (headers req)) = Some t \<longrightarrow> t \<noteq> [] \<longrightarrow>
      ConsoleLog (''['' @ now e @ ''] '' @
                  (case reqMethod req of None \<Rightarrow> ''undefined'' | Some m \<Rightarrow> m) @ '' '' @
                  requestUrl req @ '' - Token: '' @ tokenPreview t)
        \<in> set (trace (requestHandler e req)) \<and>
      (\<forall>s. ConsoleLog s \<in> set (trace (requestHandler e req)) \<longrightarrow>
         s = ''['' @ now e @ ''] '' @
             (case reqMethod req of None \<Rightarrow> ''undefined'' | Some m \<Rightarrow> m) @ '' '' @
             requestUrl req @ '' - Token: '' @ tokenPreview t \<or>
         s = ''['' @ now e @ ''] Request completed successfully''))"
proof -
  have a: "length (tokenPreview t) \<le> 23" by (simp add: tokenPreview_def)
  have b: "20 < length t \<longrightarrow> tokenPreview t = take 20 t @ ''...''"
    by (simp add: tokenPreview_def)
  have c: "length t \<le> 20 \<longrightarrow> tokenPreview t = t" by (simp add: tokenPreview_def)
  have d: "ConsoleLog (requestLogLine e req t) \<in> set (trace (requestHandler e req)) \<and>
      (\<forall>s. ConsoleLog s \<in> set (trace (requestHandler e req)) \<longrightarrow>
         s = requestLogLine e req t \<or> s = ''['' @ now e @ ''] Request completed successfully'')"
    if route: "requestUrl req = ''/'' \<or> requestUrl req = ''/mcp''"
      and tok: "extractRefreshTokenFromHeaders e (lowerCaseHeaders (headers req)) = Some t" "t \<noteq> []"
    unfolding handler_accepted [OF route tok] readParsedBody_cases dispatch_eq catchBlock_eq
    using decodeBody_logs
    by (auto split: sum.splits prod.splits option.splits if_splits)
  from a b c d show ?thesis
    unfolding requestLogLine_def by blast
qed

theorem token_preview_logged_witness:
  "length (tokenPreview ''AQDk3vN8x0pLr7TqWm2ZsYb5Hc9Jd'') \<le> 23 \<and>
   20 < length ''AQDk3vN8x0pLr7TqWm2ZsYb5Hc9Jd'' \<and>
   tokenPreview ''AQDk3vN8x0pLr7TqWm2ZsYb5Hc9Jd'' = ''AQDk3vN8x0pLr7TqWm2Z...'' \<and>
   requestUrl longTokenRequest = ''/mcp'' \<and>
   extractRefreshTokenFromHeaders (exampleEnv answering)
     (lowerCaseHeaders (headers longTokenRequest)) = Some ''AQDk3vN8x0pLr7TqWm2ZsYb5Hc9Jd'' \<and>
   ConsoleLog ''[2025-01-01T00:00:00.000Z] GET /mcp - Token: AQDk3vN8x0pLr7TqWm2Z...''
     \<in> set (trace (requestHandler (exampleEnv answering) longTokenRequest))"
proof -
  have h1: "requestUrl longTokenRequest = ''/mcp''"
    by (simp add: requestUrl_def longTokenRequest_def)
  have "lowerCaseHeaders (headers longTokenRequest) ''token'' =
      Some (HString ''AQDk3vN8x0pLr7TqWm2ZsYb5Hc9Jd'')"
    by code_simp
  then have h2: "extractRefreshTokenFromHeaders (exampleEnv answering)
     (lowerCaseHeaders (headers longTokenRequest)) = Some ''AQDk3vN8x0pLr7TqWm2ZsYb5Hc9Jd''"
    by (simp add: exampleEnv_def tokenHeader_def)
  have h3: "now (exampleEnv answering) = ''2025-01-01T00:00:00.000Z''"
    by (simp add: exampleEnv_def)
  have h4: "reqMethod longTokenRequest = Some ''GET''"
    by (simp add: longTokenRequest_def)
  have h5: "tokenPreview ''AQDk3vN8x0pLr7TqWm2ZsYb5Hc9Jd'' = ''AQDk3vN8x0pLr7TqWm2Z...''"
    by (simp add: tokenPreview_def)
  from token_preview_logged
    [of "''AQDk3vN8x0pLr7TqWm2ZsYb5Hc9Jd''" longTokenRequest "exampleEnv answering"] h1 h2
  show ?thesis by (simp add: h3 h4 h5)
qed

text \<open>
  C7 as stated fails for a credential of 20 characters or fewer: \<^verbatim>\<open>abc123\<close> is written to
  the log in full.
\<close>

theorem short_token_logged_in_full_counterexample:
  "length ''abc123'' \<le> 20 \<and>
   extractRefreshTokenFromHeaders (exampleEnv answering)
     (lowerCaseHeaders (headers emptyPost)) = Some ''abc123'' \<and>
   trace (requestHandler (exampleEnv answering) emptyPost) =
     [ExtractToken, ConsoleLog ''[2025-01-01T00:00:00.000Z] POST /mcp - Token: abc123'',
      ReadBody, HandleRequest ''abc123'' None,
      ConsoleLog ''[2025-01-01T00:00:00.000Z] Request completed successfully'']"
  by code_simp

text \<open>
  C8. In the trace of the module, every \<^verbatim>\<open>server.tool\<close> call comes before every
  \<^verbatim>\<open>server.connect\<close> call; when a \<^verbatim>\<open>server.connect\<close> call is made at all, the
  \<^verbatim>\<open>server.tool\<close> calls are exactly one per tool of \<^verbatim>\<open>readTools\<close>, \<^verbatim>\<open>playTools\<close> and
  \<^verbatim>\<open>albumTools\<close>, in that order; \<^verbatim>\<open>main\<close> makes no \<^verbatim>\<open>server.tool\<close> call, and neither does
  the handler of any request.
\<close>

theorem registration_precedes_connect:
  "(\<forall>i j. i < length (program k p r pl al) \<longrightarrow> j < length (program k p r pl al) \<longrightarrow>
      isServerTool (program k p r pl al ! i) \<longrightarrow> isServerConnect (program k p r pl al ! j) \<longrightarrow>
      i < j) \<and>
   (\<forall>tr. ServerConnect tr \<in> set (program k p r pl al) \<longrightarrow>
      filter isServerTool (program k p r pl al) = map ServerTool (r @ pl @ al)) \<and>
   (\<forall>ev. ev \<in> set (main k p) \<longrightarrow> \<not> isServerTool ev) \<and>
   (\<forall>t. ServerTool t \<notin> set (trace (requestHandler e req)))"
proof -
  have 1: "i < j" if "i < length (program k p r pl al)" "j < length (program k p r pl al)"
      "isServerTool (program k p r pl al ! i)" "isServerConnect (program k p r pl al ! j)" for i j
  proof (cases "snd (registerTools k [] (r @ pl @ al))")
    case None
    note eq = program_completed [OF None]
    show ?thesis
      by (rule tools_then_rest [OF tools_only afterRegistration_no_tool that [unfolded eq]])
  next
    case (Some error)
    from program_aborted [OF Some] obtain n where
      eq: "program k p r pl al = map ServerTool (take n (r @ pl @ al)) @ []" ..
    have none: "\<And>ev. ev \<in> set ([] :: event list) \<Longrightarrow> \<not> isServerTool ev" by simp
    show ?thesis
      by (rule tools_then_rest [OF tools_only none that [unfolded eq]])
  qed
  have 2: "filter isServerTool (program k p r pl al) = map ServerTool (r @ pl @ al)"
    if c: "ServerConnect tr \<in> set (program k p r pl al)" for tr
  proof (cases "snd (registerTools k [] (r @ pl @ al))")
    case None
    have "filter isServerTool (afterRegistration k p (r @ pl @ al)) = []"
      by (rule filter_no_tools) (rule afterRegistration_no_tool)
    then show ?thesis
      unfolding program_completed [OF None] filter_append filter_tools by simp
  next
    case (Some error)
    from program_aborted [OF Some] obtain n where
      eq: "program k p r pl al = map ServerTool (take n (r @ pl @ al)) @ []" ..
    from c have False unfolding eq by auto
    then show ?thesis ..
  qed
  have 3: "\<forall>t. ServerTool t \<notin> set (trace (requestHandler e req))"
    using handler_events [of _ e req] by fastforce
  from 1 2 3 main_no_tool show ?thesis by blast
qed

theorem registration_precedes_connect_witness:
  "program exampleSdk stdioProcess exampleReadTools examplePlayTools [] =
     [ServerTool \<lparr>name = ''getNowPlaying'', description = ''Get the current track''\<rparr>,
      ServerTool \<lparr>name = ''playMusic'', description = ''Start playback''\<rparr>,
      ConsoleLog ''Registered 2 tools: getNowPlaying, playMusic'',
      ServerConnect StdioServerTransport] \<and>
   isServerTool (program exampleSdk stdioProcess exampleReadTools examplePlayTools [] ! 1) \<and>
   isServerConnect (program exampleSdk stdioProcess exampleReadTools examplePlayTools [] ! 3) \<and>
   (1 :: nat) < 3 \<and>
   filter isServerTool (program exampleSdk stdioProcess exampleReadTools examplePlayTools []) =
     map ServerTool (exampleReadTools @ examplePlayTools @ [])"
proof -
  have p: "program exampleSdk stdioProcess exampleReadTools examplePlayTools [] =
     [ServerTool \<lparr>name = ''getNowPlaying'', description = ''Get the current track''\<rparr>,
      ServerTool \<lparr>name = ''playMusic'', description = ''Start playback''\<rparr>,
      ConsoleLog ''Registered 2 tools: getNowPlaying, playMusic'',
      ServerConnect StdioServerTransport]"
    by code_simp
  have c: "ServerConnect StdioServerTransport
      \<in> set (program exampleSdk stdioProcess exampleReadTools examplePlayTools [])"
    unfolding p by simp
  note t = registration_precedes_connect
    [of exampleSdk stdioProcess exampleReadTools examplePlayTools "[]"]
  from t c have f:
    "filter isServerTool (program exampleSdk stdioProcess exampleReadTools examplePlayTools []) =
     map ServerTool (exampleReadTools @ examplePlayTools @ [])"
    by blast
  have i: "isServerTool (program exampleSdk stdioProcess exampleReadTools examplePlayTools [] ! 1)"
    "isServerConnect (program exampleSdk stdioProcess exampleReadTools examplePlayTools [] ! 3)"
    unfolding p by simp_all
  from p f i show ?thesis by simp
qed

text \<open>
  C9. The stdio transport is connected exactly when \<^verbatim>\<open>MCP_TRANSPORT\<close> is \<^verbatim>\<open>stdio\<close> or
  \<^verbatim>\<open>--stdio\<close> is among the arguments, and then no HTTP server is created and nothing
  listens. Otherwise the HTTP transport is connected and, once connected, the only
  \<^verbatim>\<open>listen\<close> call is \<^verbatim>\<open>listen(port, host)\<close>: the port is 8888 when \<^verbatim>\<open>PORT\<close> is unset and
  \<^verbatim>\<open>Number.parseInt(PORT)\<close> when it is set and not empty (the number \<open>n\<close> when \<^verbatim>\<open>PORT\<close> is the
  decimal numeral of \<open>n\<close> below \<open>2 ^ 53\<close>); the host is \<^verbatim>\<open>0.0.0.0\<close> when \<^verbatim>\<open>HOST\<close> is unset
  and \<^verbatim>\<open>HOST\<close> when it is set and not empty. When \<^verbatim>\<open>listen\<close> accepts the port, the error
  handler is installed next; when it throws, as Node does for a port that is not an
  integer from 0 to 65535, \<^verbatim>\<open>main\<close> logs the fatal error and exits with code 1.
\<close>

theorem transport_selection:
  "(useStdio p \<longleftrightarrow> MCP_TRANSPORT p = Some ''stdio'' \<or> ''--stdio'' \<in> set (argv p)) \<and>
   (useStdio p \<longrightarrow>
      hd (main k p) = ServerConnect StdioServerTransport \<and>
      ServerConnect StreamableHTTPServerTransport \<notin> set (main k p) \<and>
      CreateServer \<notin> set (main k p) \<and>
      (\<forall>n h. Listen n h \<notin> set (main k p))) \<and>
   (\<not> useStdio p \<longrightarrow>
      hd (main k p) = ServerConnect StreamableHTTPServerTransport \<and>
      ServerConnect StdioServerTransport \<notin> set (main k p) \<and>
      (\<forall>n h. Listen n h \<in> set (main k p) \<longrightarrow> n = port p \<and> h = host p) \<and>
      (serverConnect k StreamableHTTPServerTransport = None \<longrightarrow>
         take 3 (main k p) =
           [ServerConnect StreamableHTTPServerTransport, CreateServer,
            Listen (port p) (host p)] \<and>
         (httpListen k (port p) (host p) = None \<longrightarrow>
            main k p =
              [ServerConnect StreamableHTTPServerTransport, CreateServer,
               Listen (port p) (host p), OnError]) \<and>
         (\<forall>error. httpListen k (port p) (host p) = Some error \<longrightarrow>
            main k p =
              [ServerConnect StreamableHTTPServerTransport, CreateServer,
               Listen (port p) (host p),
               ConsoleError ''Fatal error in main():'' error, ProcessExit 1]) \<and>
         ((\<forall>n h. \<not> validPort n \<longrightarrow> httpListen k n h \<noteq> None) \<longrightarrow> \<not> validPort (port p) \<longrightarrow>
            OnError \<notin> set (main k p) \<and> last (main k p) = ProcessExit 1))) \<and>
   (PORT p = None \<longrightarrow> port p = Exact 8888) \<and>
   (\<forall>v. PORT p = Some v \<longrightarrow> v \<noteq> [] \<longrightarrow> port p = parseInt v) \<and>
   (\<forall>n. n < 2 ^ 53 \<longrightarrow> PORT p = Some (decimal n) \<longrightarrow> port p = Exact (int n)) \<and>
   (HOST p = None \<longrightarrow> host p = ''0.0.0.0'') \<and>
   (\<forall>h. HOST p = Some h \<longrightarrow> h \<noteq> [] \<longrightarrow> host p = h)"
proof -
  have 1: "useStdio p \<longleftrightarrow> MCP_TRANSPORT p = Some ''stdio'' \<or> ''--stdio'' \<in> set (argv p)"
    by (simp add: useStdio_def)
  have 2: "useStdio p \<longrightarrow>
      hd (main k p) = ServerConnect StdioServerTransport \<and>
      ServerConnect StreamableHTTPServerTransport \<notin> set (main k p) \<and>
      CreateServer \<notin> set (main k p) \<and>
      (\<forall>n h. Listen n h \<notin> set (main k p))"
    by (auto simp: main_def split: option.splits)
  have 3: "\<not> useStdio p \<longrightarrow>
      hd (main k p) = ServerConnect StreamableHTTPServerTransport \<and>
      ServerConnect StdioServerTransport \<notin> set (main k p) \<and>
      (\<forall>n h. Listen n h \<in> set (main k p) \<longrightarrow> n = port p \<and> h = host p)"
    by (auto simp: main_def split: option.splits)
  have 4: "take 3 (main k p) =
           [ServerConnect StreamableHTTPServerTransport, CreateServer,
            Listen (port p) (host p)] \<and>
         (httpListen k (port p) (host p) = None \<longrightarrow>
            main k p =
              [ServerConnect StreamableHTTPServerTransport, CreateServer,
               Listen (port p) (host p), OnError]) \<and>
         (\<forall>error. httpListen k (port p) (host p) = Some error \<longrightarrow>
            main k p =
              [ServerConnect StreamableHTTPServerTransport, CreateServer,
               Listen (port p) (host p),
               ConsoleError ''Fatal error in main():'' error, ProcessExit 1])"
    if "\<not> useStdio p" "serverConnect k StreamableHTTPServerTransport = None"
    using that by (auto simp: main_def split: option.splits)
  have 5: "OnError \<notin> set (main k p) \<and> last (main k p) = ProcessExit 1"
    if "\<not> useStdio p" "serverConnect k StreamableHTTPServerTransport = None"
      "\<forall>n h. \<not> validPort n \<longrightarrow> httpListen k n h \<noteq> None" "\<not> validPort (port p)"
  proof -
    from that(3,4) obtain error where "httpListen k (port p) (host p) = Some error"
      by auto
    with that(1,2) show ?thesis by (simp add: main_def)
  qed
  have 6: "PORT p = None \<longrightarrow> port p = Exact 8888"
    by (simp add: port_def)
  have 7: "\<forall>v. PORT p = Some v \<longrightarrow> v \<noteq> [] \<longrightarrow> port p = parseInt v"
    by (simp add: port_def)
  have 8: "\<forall>n. n < 2 ^ 53 \<longrightarrow> PORT p = Some (decimal n) \<longrightarrow> port p = Exact (int n)"
    by (simp add: port_def decimal_nonempty parseInt_decimal)
  have 9: "HOST p = None \<longrightarrow> host p = ''0.0.0.0''"
    by (simp add: host_def)
  have 10: "\<forall>h. HOST p = Some h \<longrightarrow> h \<noteq> [] \<longrightarrow> host p = h"
    by (simp add: host_def)
  from 1 2 3 4 5 6 7 8 9 10 show ?thesis by blast
qed

theorem transport_selection_witness:
  "\<not> useStdio httpProcess \<and>
   serverConnect exampleSdk StreamableHTTPServerTransport = None \<and>
   PORT httpProcess = Some (decimal 3000) \<and> (3000 :: nat) < 2 ^ 53 \<and>
   port httpProcess = Exact 3000 \<and>
   httpListen exampleSdk (port httpProcess) (host httpProcess) = None \<and>
   main exampleSdk httpProcess =
     [ServerConnect StreamableHTTPServerTransport, CreateServer,
      Listen (Exact 3000) ''127.0.0.1'', OnError] \<and>
   \<not> useStdio badPortProcess \<and>
   PORT badPortProcess = Some ''abc'' \<and> port badPortProcess = NaN \<and>
   httpListen exampleSdk (port badPortProcess) (host badPortProcess) =
     Some (ErrorObject ''ERR_SOCKET_BAD_PORT'') \<and>
   main exampleSdk badPortProcess =
     [ServerConnect StreamableHTTPServerTransport, CreateServer, Listen NaN ''0.0.0.0'',
      ConsoleError ''Fatal error in main():'' (ErrorObject ''ERR_SOCKET_BAD_PORT''),
      ProcessExit 1] \<and>
   useStdio stdioProcess \<and>
   hd (main exampleSdk stdioProcess) = ServerConnect StdioServerTransport \<and>
   PORT stdioProcess = None \<and> port stdioProcess = Exact 8888 \<and>
   HOST stdioProcess = None \<and> host stdioProcess = ''0.0.0.0''"
proof -
  have h1: "\<not> useStdio httpProcess" by code_simp
  have h2: "serverConnect exampleSdk StreamableHTTPServerTransport = None"
    by (simp add: exampleSdk_def)
  have h3: "PORT httpProcess = Some (decimal 3000)" by code_simp
  have h4: "HOST httpProcess = Some ''127.0.0.1''" by (simp add: httpProcess_def)
  have h5: "(3000 :: nat) < 2 ^ 53" by simp
  note t1 = transport_selection [of httpProcess exampleSdk]
  from t1 have "\<forall>n. n < 2 ^ 53 \<longrightarrow> PORT httpProcess = Some (decimal n) \<longrightarrow>
      port httpProcess = Exact (int n)"
    by blast
  from this [rule_format, OF h5 h3] have p1: "port httpProcess = Exact 3000" by simp
  from t1 have "\<forall>h. HOST httpProcess = Some h \<longrightarrow> h \<noteq> [] \<longrightarrow> host httpProcess = h"
    by blast
  from this [rule_format, OF h4] have p2: "host httpProcess = ''127.0.0.1''" by simp
  have l1: "httpListen exampleSdk (port httpProcess) (host httpProcess) = None"
    unfolding p1 p2 by (simp add: exampleSdk_def nodeListen_def validPort_def)
  from t1 h1 h2 l1 have "main exampleSdk httpProcess =
     [ServerConnect StreamableHTTPServerTransport, CreateServer,
      Listen (port httpProcess) (host httpProcess), OnError]"
    by blast
  then have m1: "main exampleSdk httpProcess =
     [ServerConnect StreamableHTTPServerTransport, CreateServer,
      Listen (Exact 3000) ''127.0.0.1'', OnError]"
    unfolding p1 p2 .
  have b1: "\<not> useStdio badPortProcess" by code_simp
  have b2: "PORT badPortProcess = Some ''abc''" "HOST badPortProcess = None"
    by (simp_all add: badPortProcess_def)
  have b3: "parseInt ''abc'' = NaN" by code_simp
  note t2 = transport_selection [of badPortProcess exampleSdk]
  from t2 have "\<forall>v. PORT badPortProcess = Some v \<longrightarrow> v \<noteq> [] \<longrightarrow>
      port badPortProcess = parseInt v"
    by blast
  from this [rule_format, OF b2(1)] b3 have q1: "port badPortProcess = NaN" by simp
  from t2 b2(2) have q2: "host badPortProcess = ''0.0.0.0''" by blast
  have l2: "httpListen exampleSdk (port badPortProcess) (host badPortProcess) =
     Some (ErrorObject ''ERR_SOCKET_BAD_PORT'')"
    unfolding q1 q2 by (simp add: exampleSdk_def nodeListen_def validPort_def)
  from t2 b1 h2 l2 have "main exampleSdk badPortProcess =
     [ServerConnect StreamableHTTPServerTransport, CreateServer,
      Listen (port badPortProcess) (host badPortProcess),
      ConsoleError ''Fatal error in main():'' (ErrorObject ''ERR_SOCKET_BAD_PORT''),
      ProcessExit 1]"
    by blast
  then have m2: "main exampleSdk badPortProcess =
     [ServerConnect StreamableHTTPServerTransport, CreateServer, Listen NaN ''0.0.0.0'',
      ConsoleError ''Fatal error in main():'' (ErrorObject ''ERR_SOCKET_BAD_PORT''),
      ProcessExit 1]"
    unfolding q1 q2 .
  have s1: "useStdio stdioProcess" by code_simp
  have s2: "PORT stdioProcess = None" "HOST stdioProcess = None"
    by (simp_all add: stdioProcess_def)
  note t3 = transport_selection [of stdioProcess exampleSdk]
  from t3 s1 s2 have m3: "hd (main exampleSdk stdioProcess) = ServerConnect StdioServerTransport"
    "port stdioProcess = Exact 8888" "host stdioProcess = ''0.0.0.0''"
    by blast+
  from h1 h2 h3 h5 p1 l1 m1 b1 b2 q1 l2 m2 s1 s2 m3 show ?thesis by simp
qed

text \<open>
  C10. Let a request be on an accepted path with a non-empty credential. A payload other
  than \<^verbatim>\<open>undefined\<close> reaches \<^verbatim>\<open>transport.handleRequest\<close> only when the method is POST and
  the body is not empty. When the method is not POST the body is never read and the
  payload is \<^verbatim>\<open>undefined\<close>; when it is POST and the body is empty the payload is
  \<^verbatim>\<open>undefined\<close>, not the empty string.
\<close>

theorem payload_undefined_unless_post_body:
  assumes "requestUrl req = ''/'' \<or> requestUrl req = ''/mcp''"
    and "extractRefreshTokenFromHeaders e (lowerCaseHeaders (headers req)) = Some t" "t \<noteq> []"
  shows "(\<forall>a p. HandleRequest a p \<in> set (trace (requestHandler e req)) \<longrightarrow> p \<noteq> None \<longrightarrow>
            reqMethod req = Some ''POST'' \<and>
            (\<exists>chunks. body req = Inr chunks \<and> concat chunks \<noteq> [])) \<and>
         (reqMethod req \<noteq> Some ''POST'' \<longrightarrow>
            ReadBody \<notin> set (trace (requestHandler e req)) \<and>
            HandleRequest t None \<in> set (trace (requestHandler e req))) \<and>
         (\<forall>chunks. reqMethod req = Some ''POST'' \<longrightarrow> body req = Inr chunks \<longrightarrow>
            concat chunks = [] \<longrightarrow>
            HandleRequest t None \<in> set (trace (requestHandler e req)) \<and>
            HandleRequest t (Some (JStr [])) \<notin> set (trace (requestHandler e req)))"
  unfolding handler_accepted [OF assms] readParsedBody_cases dispatch_eq catchBlock_eq
  using decodeBody_logs
  by (auto split: sum.splits prod.splits option.splits if_splits)

theorem payload_undefined_unless_post_body_witness:
  "requestUrl getRequest = ''/'' \<and>
   extractRefreshTokenFromHeaders (exampleEnv answering)
     (lowerCaseHeaders (headers getRequest)) = Some ''abc123'' \<and>
   reqMethod getRequest \<noteq> Some ''POST'' \<and>
   ReadBody \<notin> set (trace (requestHandler (exampleEnv answering) getRequest)) \<and>
   HandleRequest ''abc123'' None \<in> set (trace (requestHandler (exampleEnv answering) getRequest))"
proof -
  have h1: "requestUrl getRequest = ''/''"
    by (simp add: requestUrl_def getRequest_def)
  have "lowerCaseHeaders (headers getRequest) ''token'' = Some (HString ''abc123'')"
    by code_simp
  then have h2: "extractRefreshTokenFromHeaders (exampleEnv answering)
     (lowerCaseHeaders (headers getRequest)) = Some ''abc123''"
    by (simp add: exampleEnv_def tokenHeader_def)
  have h3: "reqMethod getRequest \<noteq> Some ''POST''"
    by (simp add: getRequest_def)
  from payload_undefined_unless_post_body [of getRequest "exampleEnv answering" "''abc123''"]
    h1 h2 h3
  show ?thesis by simp
qed

end
